theory Spec2Isabelle
  imports Complex_Main
begin

section \<open>Python values and the built-ins the graph code calls\<close>

text \<open>
  A Python string is modelled as the list of its code points, so \<open>ord\<close> of a character
  is the number itself and every string of Python is a value of the model; \<open>lit\<close> writes
  a string literal of the source as such a list. Python floats are modelled as exact
  reals: rounding, infinities and NaN are outside the model.
\<close>

type_synonym cadena = "nat list"

definition lit :: "string \<Rightarrow> cadena" where
  "lit s = map of_char s"

type_synonym nodo = cadena

text \<open>
  The class of a raised exception, as far as the handlers of the code tell classes
  apart (\<open>except ValueError\<close> also catches the subclasses of ValueError);
  \<open>OtraExcepcion\<close> is any class that is none of the others.
\<close>

datatype excepcion =
    ValueError
  | TypeError
  | KeyError
  | OverflowError
  | AttributeError
  | OtraExcepcion

text \<open>
  A value as \<open>json.load\<close> hands it to the loader. A JSON number without fraction or
  exponent is a Python \<open>int\<close>, which has no bound; any other number is a \<open>float\<close>. A dictionary
  is the list of its items, looked up with \<open>map_of\<close>: the keys of the item list of a
  Python dictionary are distinct.
\<close>

datatype pyval =
    PNone
  | PBool bool
  | PInt int
  | PFloat real
  | PStr cadena
  | PList "pyval list"
  | PDict "(cadena \<times> pyval) list"

text \<open>
  Four built-ins are not code of the repository and are taken as parameters:
  \<open>float_str\<close> is \<open>float(s)\<close> on a string (\<open>None\<close> when Python raises ValueError),
  \<open>str_val\<close> is \<open>str(v)\<close> on a value that is not a string (its result, or the class of
  the exception it raises: \<open>str\<close> of an integer of too many digits raises ValueError),
  \<open>str_strip\<close> is \<open>s.strip()\<close> and \<open>str_upper\<close> is \<open>s.upper()\<close>.
\<close>

record python =
  float_str :: "cadena \<Rightarrow> real option"
  str_val :: "pyval \<Rightarrow> excepcion + cadena"
  str_strip :: "cadena \<Rightarrow> cadena"
  str_upper :: "cadena \<Rightarrow> cadena"

text \<open>
  \<open>float(v)\<close>. An \<open>int\<close> converts when it rounds to a finite float, that is when its
  absolute value is below \<open>2 ^ 1024 - 2 ^ 970\<close>; from there on \<open>float\<close> raises OverflowError.
  \<open>bool\<close> is a subclass of \<open>int\<close>; \<open>None\<close>, lists and dictionaries raise TypeError.
\<close>

definition limite_float :: int where
  "limite_float = 2 ^ 1024 - 2 ^ 970"

fun py_float :: "python \<Rightarrow> pyval \<Rightarrow> excepcion + real" where
  "py_float py (PFloat r) = Inr r"
| "py_float py (PInt n) = (if \<bar>n\<bar> < limite_float then Inr (of_int n) else Inl OverflowError)"
| "py_float py (PBool b) = Inr (if b then 1 else 0)"
| "py_float py (PStr s) = (case float_str py s of Some r \<Rightarrow> Inr r | None \<Rightarrow> Inl ValueError)"
| "py_float py PNone = Inl TypeError"
| "py_float py (PList xs) = Inl TypeError"
| "py_float py (PDict kv) = Inl TypeError"

fun py_str :: "python \<Rightarrow> pyval \<Rightarrow> excepcion + cadena" where
  "py_str py (PStr s) = Inr s"
| "py_str py v = str_val py v"

text \<open>\<open>v[k]\<close> with a string key: only a dictionary can be subscripted by a string.\<close>

fun py_getitem :: "pyval \<Rightarrow> cadena \<Rightarrow> excepcion + pyval" where
  "py_getitem (PDict kv) k = (case map_of kv k of Some v \<Rightarrow> Inr v | None \<Rightarrow> Inl KeyError)"
| "py_getitem v k = Inl TypeError"

text \<open>Iterating a value: a list gives its items, a string its characters, a dictionary
  its keys; anything else is not iterable.\<close>

fun py_iter :: "pyval \<Rightarrow> excepcion + pyval list" where
  "py_iter (PList xs) = Inr xs"
| "py_iter (PStr s) = Inr (map (\<lambda>c. PStr [c]) s)"
| "py_iter (PDict kv) = Inr (map (\<lambda>(k, v). PStr k) kv)"
| "py_iter v = Inl TypeError"

section \<open>Grafo\<close>

text \<open>
  The class of \<open>3_bfs_search_ciega.py\<close>. \<open>adyacencias\<close> is a \<open>defaultdict(list)\<close>: a
  total function whose default is the empty list. Node labels are strings: the callers
  of \<open>agregar_arista\<close> in the repository pass the result of \<open>strip().upper()\<close>.
\<close>

record grafo =
  adyacencias :: "nodo \<Rightarrow> (nodo \<times> real) list"
  aristas :: "(nodo \<times> nodo \<times> real) list"
  nodos :: "nodo set"

text \<open>The class of \<open>4_hillclimbing_search_informada.py\<close> has one more attribute; the
  position values are stored as read, without conversion.\<close>

record grafo_hc = grafo +
  posiciones_nodos :: "(nodo \<times> pyval \<times> pyval) list"

definition grafo_vacio :: grafo where
  "grafo_vacio = \<lparr>adyacencias = (\<lambda>n. []), aristas = [], nodos = {}\<rparr>"

definition grafo_hc_vacio :: grafo_hc where
  "grafo_hc_vacio = \<lparr>adyacencias = (\<lambda>n. []), aristas = [], nodos = {}, posiciones_nodos = []\<rparr>"

text \<open>The body of the \<open>try\<close> of \<open>agregar_arista\<close> once \<open>float(peso)\<close> has returned.\<close>

definition insertar_arista :: "nodo \<Rightarrow> nodo \<Rightarrow> real \<Rightarrow> 'a grafo_scheme \<Rightarrow> 'a grafo_scheme" where
  "insertar_arista origen destino p g =
     g\<lparr>adyacencias := (adyacencias g)(origen := adyacencias g origen @ [(destino, p)]),
       aristas := aristas g @ [(origen, destino, p)],
       nodos := insert destino (insert origen (nodos g))\<rparr>"

text \<open>\<open>Grafo.agregar_arista\<close> (the same in both files): only ValueError is caught.\<close>

definition agregar_arista ::
  "python \<Rightarrow> nodo \<Rightarrow> nodo \<Rightarrow> pyval \<Rightarrow> 'a grafo_scheme \<Rightarrow> excepcion + (bool \<times> 'a grafo_scheme)" where
  "agregar_arista py origen destino peso g =
     (case py_float py peso of
        Inr p \<Rightarrow> Inr (True, insertar_arista origen destino p g)
      | Inl ValueError \<Rightarrow> Inr (False, g)
      | Inl e \<Rightarrow> Inl e)"

definition obtener_vecinos :: "'a grafo_scheme \<Rightarrow> nodo \<Rightarrow> nodo list" where
  "obtener_vecinos g n = map fst (adyacencias g n)"

definition obtener_vecinos_con_peso :: "'a grafo_scheme \<Rightarrow> nodo \<Rightarrow> (nodo \<times> real) list" where
  "obtener_vecinos_con_peso g n = adyacencias g n"

definition limpiar :: "grafo \<Rightarrow> grafo" where
  "limpiar g = g\<lparr>adyacencias := (\<lambda>n. []), aristas := [], nodos := {}\<rparr>"

definition limpiar_hc :: "grafo_hc \<Rightarrow> grafo_hc" where
  "limpiar_hc g = g\<lparr>adyacencias := (\<lambda>n. []), aristas := [], nodos := {}, posiciones_nodos := []\<rparr>"

subsection \<open>cargar\_desde\_json\<close>

text \<open>An entry of \<open>errores\<close>: the f-string's index \<open>i+1\<close> (and the endpoints for the
  second message); the text of the exception is not modelled.\<close>

datatype error_carga = FormatoInvalido nat | ErrorAlProcesar nat nodo nodo

text \<open>\<open>s.strip().upper()\<close>.\<close>

definition normalizar :: "python \<Rightarrow> cadena \<Rightarrow> cadena" where
  "normalizar py s = str_upper py (str_strip py s)"

text \<open>The first three statements of the inner \<open>try\<close>, evaluated in the source's order:
  the first exception ends the block.\<close>

definition leer_arista :: "python \<Rightarrow> pyval \<Rightarrow> excepcion + (nodo \<times> nodo \<times> real)" where
  "leer_arista py arista =
     (case py_getitem arista (lit ''origen'') of
        Inl e \<Rightarrow> Inl e
      | Inr vo \<Rightarrow>
     (case py_str py vo of
        Inl e \<Rightarrow> Inl e
      | Inr so \<Rightarrow>
     (case py_getitem arista (lit ''destino'') of
        Inl e \<Rightarrow> Inl e
      | Inr vd \<Rightarrow>
     (case py_str py vd of
        Inl e \<Rightarrow> Inl e
      | Inr sd \<Rightarrow>
     (case py_getitem arista (lit ''peso'') of
        Inl e \<Rightarrow> Inl e
      | Inr vp \<Rightarrow>
     (case py_float py vp of
        Inl e \<Rightarrow> Inl e
      | Inr p \<Rightarrow> Inr (normalizar py so, normalizar py sd, p)))))))"

text \<open>The classes caught by the inner \<open>except (KeyError, ValueError, TypeError)\<close>.\<close>

fun capturada :: "excepcion \<Rightarrow> bool" where
  "capturada KeyError = True"
| "capturada ValueError = True"
| "capturada TypeError = True"
| "capturada e = False"

text \<open>
  The \<open>for i, arista in enumerate(...)\<close> loop. The state is the graph,
  \<open>aristas_cargadas\<close> and \<open>errores\<close>. The body of the inner \<open>try\<close> reads the record and
  calls \<open>agregar_arista\<close> with the converted weight; an exception of a caught class adds
  an error entry and the loop goes on, any other exception leaves the loop (first
  component of the result) with the state reached so far.
\<close>

fun cargar_aristas ::
  "python \<Rightarrow> nat \<Rightarrow> pyval list \<Rightarrow> 'a grafo_scheme \<times> nat \<times> error_carga list
     \<Rightarrow> excepcion option \<times> 'a grafo_scheme \<times> nat \<times> error_carga list" where
  "cargar_aristas py i [] (g, aristas_cargadas, errores) = (None, g, aristas_cargadas, errores)"
| "cargar_aristas py i (arista # resto) (g, aristas_cargadas, errores) =
     (case (case leer_arista py arista of
              Inl e \<Rightarrow> Inl e
            | Inr (origen, destino, p) \<Rightarrow>
                (case agregar_arista py origen destino (PFloat p) g of
                   Inl e \<Rightarrow> Inl e
                 | Inr (True, g') \<Rightarrow> Inr (g', aristas_cargadas + 1, errores)
                 | Inr (False, g') \<Rightarrow>
                     Inr (g', aristas_cargadas, errores @ [ErrorAlProcesar (i + 1) origen destino])))
      of
        Inr st \<Rightarrow> cargar_aristas py (i + 1) resto st
      | Inl e \<Rightarrow>
          if capturada e
          then cargar_aristas py (i + 1) resto (g, aristas_cargadas, errores @ [FormatoInvalido (i + 1)])
          else (Some e, g, aristas_cargadas, errores))"

text \<open>
  \<open>Grafo.cargar_desde_json\<close> of \<open>3_bfs_search_ciega.py\<close>. The result is what the call
  returns or raises, and the graph it leaves. Every exception raised inside the outer
  \<open>try\<close> leaves as ValueError. A \<open>datos_json\<close> that is not a dictionary always ends
  there: either the \<open>in\<close> test raises or is false, or the subscript by a string raises.
\<close>

definition cargar_desde_json ::
  "python \<Rightarrow> pyval \<Rightarrow> grafo \<Rightarrow> (excepcion + nat \<times> error_carga list) \<times> grafo" where
  "cargar_desde_json py datos_json g =
     (let g0 = limpiar g in
      case datos_json of
        PDict kv \<Rightarrow>
          (case map_of kv (lit ''aristas'') of
             None \<Rightarrow> (Inl ValueError, g0)
           | Some v \<Rightarrow>
               (case py_iter v of
                  Inl e \<Rightarrow> (Inl ValueError, g0)
                | Inr items \<Rightarrow>
                    (case cargar_aristas py 0 items (g0, 0, []) of
                       (None, g1, aristas_cargadas, errores) \<Rightarrow> (Inr (aristas_cargadas, errores), g1)
                     | (Some e, g1, aristas_cargadas, errores) \<Rightarrow> (Inl ValueError, g1))))
      | _ \<Rightarrow> (Inl ValueError, g0))"





subsection \<open>exportar\_a\_json\<close>

text \<open>
  \<open>Grafo.exportar_a_json\<close> of \<open>3_bfs_search_ciega.py\<close>. \<open>list(self.nodos)\<close> enumerates a
  set in an order Python does not fix: the enumeration is the argument \<open>lista_nodos\<close>.
  The weights of the graph are floats.
\<close>

definition exportar_a_json :: "nodo list \<Rightarrow> grafo \<Rightarrow> pyval" where
  "exportar_a_json lista_nodos g =
     PDict [(lit ''nodos'', PList (map PStr lista_nodos)),
            (lit ''aristas'',
               PList (map (\<lambda>(origen, destino, p).
                             PDict [(lit ''origen'', PStr origen), (lit ''destino'', PStr destino),
                                    (lit ''peso'', PFloat p)])
                          (aristas g)))]"

section \<open>AlgoritmoBFS\<close>

text \<open>
  A trace entry of \<open>AlgoritmoBFS.buscar_camino\<close>. The unknown-node return is a list
  holding one bare string; every other entry is a dictionary with the keys \<open>paso\<close>,
  \<open>accion\<close>, \<open>cola\<close>, \<open>visitados\<close> and \<open>nodo_actual\<close>, in this order in \<open>PasoBFS\<close>. The
  text of \<open>accion\<close> is kept as its kind and the values formatted into it; the keys
  \<open>camino_final\<close> and \<open>vecinos_agregados\<close> repeat values the action carries.
\<close>

datatype accion_bfs =
    Inicializar nodo
  | ProcesarNodo nodo
  | MetaEncontrada "nodo list"
  | AgregarVecinos nodo "nodo list"
  | NoExisteCamino

datatype paso_bfs =
    ErrorNodosBFS
  | PasoBFS nat accion_bfs "nodo list" "nodo set" "nodo option"

record estado_bfs =
  cola :: "nodo list"
  visitados :: "nodo set"
  padre :: "nodo \<rightharpoonup> nodo option"
  pasos_busqueda :: "paso_bfs list"
  paso :: nat

text \<open>
  \<open>_reconstruir_camino\<close>: the loop follows \<open>padre\<close> until it reads \<open>None\<close>. A missing key
  raises KeyError, and a cycle of parents would keep the loop running: not returning is
  the value \<open>None\<close> of the option.
\<close>

partial_function (option) reconstruir_loop ::
  "(nodo \<rightharpoonup> nodo option) \<Rightarrow> nodo option \<Rightarrow> nodo list \<Rightarrow> (excepcion + nodo list) option" where
  "reconstruir_loop pd actual camino_rev =
     (case actual of
        None \<Rightarrow> Some (Inr (rev camino_rev))
      | Some a \<Rightarrow>
          (case pd a of
             None \<Rightarrow> Some (Inl KeyError)
           | Some siguiente \<Rightarrow> reconstruir_loop pd siguiente (camino_rev @ [a])))"

definition reconstruir_camino ::
  "(nodo \<rightharpoonup> nodo option) \<Rightarrow> nodo \<Rightarrow> nodo \<Rightarrow> (excepcion + nodo list) option" where
  "reconstruir_camino pd inicio final = reconstruir_loop pd (Some final) []"

text \<open>The \<open>for vecino in vecinos\<close> loop; the second component is \<open>vecinos_nuevos\<close>.\<close>

fun explorar_vecinos ::
  "nodo \<Rightarrow> nodo list \<Rightarrow> estado_bfs \<times> nodo list \<Rightarrow> estado_bfs \<times> nodo list" where
  "explorar_vecinos u [] (st, vecinos_nuevos) = (st, vecinos_nuevos)"
| "explorar_vecinos u (vecino # resto) (st, vecinos_nuevos) =
     (if vecino \<notin> visitados st then
        explorar_vecinos u resto
          (st\<lparr>cola := cola st @ [vecino],
              visitados := insert vecino (visitados st),
              padre := (padre st)(vecino \<mapsto> Some u)\<rparr>,
           vecinos_nuevos @ [vecino])
      else explorar_vecinos u resto (st, vecinos_nuevos))"

text \<open>One pass of the body of \<open>while self.cola\<close> after the goal test has failed: the
  neighbours are explored and the step is recorded when some were added.\<close>

definition expandir :: "'a grafo_scheme \<Rightarrow> nodo \<Rightarrow> estado_bfs \<Rightarrow> estado_bfs" where
  "expandir g u st =
     (case explorar_vecinos u (obtener_vecinos g u) (st, []) of
        (st2, vecinos_nuevos) \<Rightarrow>
          if vecinos_nuevos \<noteq> [] then
            st2\<lparr>pasos_busqueda := pasos_busqueda st2 @
                   [PasoBFS (paso st2) (AgregarVecinos u vecinos_nuevos) (cola st2) (visitados st2) (Some u)],
                paso := paso st2 + 1\<rparr>
          else st2)"

text \<open>The state after \<open>popleft\<close> and the "Procesar nodo" record.\<close>

definition desencolar :: "nodo \<Rightarrow> nodo list \<Rightarrow> estado_bfs \<Rightarrow> estado_bfs" where
  "desencolar u resto st =
     st\<lparr>cola := resto,
        pasos_busqueda := pasos_busqueda st @
          [PasoBFS (paso st) (ProcesarNodo u) resto (visitados st) (Some u)],
        paso := paso st + 1\<rparr>"

text \<open>
  The \<open>while self.cola\<close> loop with the two returns of \<open>buscar_camino\<close>. The loop ends
  only when the queue empties or the goal is dequeued, so it is a partial function:
  \<open>None\<close> is a run that never returns.
\<close>

partial_function (option) bfs_loop ::
  "'a grafo_scheme \<Rightarrow> nodo \<Rightarrow> nodo \<Rightarrow> estado_bfs
     \<Rightarrow> (excepcion + nodo list option \<times> paso_bfs list) option" where
  "bfs_loop g inicio final st =
     (case cola st of
        [] \<Rightarrow>
          Some (Inr (None, pasos_busqueda st @ [PasoBFS (paso st) NoExisteCamino [] (visitados st) None]))
      | u # resto \<Rightarrow>
          (if u = final then
             (case reconstruir_camino (padre st) inicio final of
                None \<Rightarrow> None
              | Some (Inl e) \<Rightarrow> Some (Inl e)
              | Some (Inr camino_final) \<Rightarrow>
                  Some (Inr (Some camino_final,
                    pasos_busqueda (desencolar u resto st) @
                      [PasoBFS (paso (desencolar u resto st)) (MetaEncontrada camino_final) resto
                         (visitados st) (Some final)])))
           else bfs_loop g inicio final (expandir g u (desencolar u resto st))))"

text \<open>\<open>AlgoritmoBFS.buscar_camino\<close>. The attributes are reset at the start of every
  call, so the result depends on the graph and the two nodes only.\<close>

definition buscar_camino_bfs ::
  "'a grafo_scheme \<Rightarrow> nodo \<Rightarrow> nodo \<Rightarrow> (excepcion + nodo list option \<times> paso_bfs list) option" where
  "buscar_camino_bfs g inicio final =
     (if inicio \<notin> nodos g \<or> final \<notin> nodos g then Some (Inr (None, [ErrorNodosBFS]))
      else bfs_loop g inicio final
             \<lparr>cola = [inicio], visitados = {inicio}, padre = [inicio \<mapsto> None],
              pasos_busqueda = [PasoBFS 0 (Inicializar inicio) [inicio] {inicio} (Some inicio)],
              paso = 1\<rparr>)"

section \<open>AlgoritmoHillClimbing\<close>

text \<open>\<open>posiciones_canvas\<close>: a dictionary from node to a pair of coordinates, as its item
  list; \<open>None\<close> and the empty dictionary are both the empty list (both are false for
  \<open>if posiciones_canvas\<close>).\<close>

type_synonym posiciones = "(nodo \<times> real \<times> real) list"

definition calcular_heuristica_euclidiana :: "nodo \<Rightarrow> nodo \<Rightarrow> posiciones \<Rightarrow> real" where
  "calcular_heuristica_euclidiana n objetivo pos =
     (case (map_of pos n, map_of pos objetivo) of
        (Some (x1, y1), Some (x2, y2)) \<Rightarrow> sqrt ((x2 - x1)\<^sup>2 + (y2 - y1)\<^sup>2)
      | _ \<Rightarrow> 0)"

definition calcular_heuristica_distancia_lineal :: "nodo \<Rightarrow> nodo \<Rightarrow> real" where
  "calcular_heuristica_distancia_lineal n objetivo =
     (let nodo_val = (\<Sum>c\<leftarrow>n. int c);
          obj_val = (\<Sum>c\<leftarrow>objetivo. int c)
      in real_of_int \<bar>nodo_val - obj_val\<bar> / 100)"

text \<open>
  A trace entry of \<open>AlgoritmoHillClimbing.buscar_camino\<close>: a dictionary with the keys
  \<open>paso\<close>, \<open>accion\<close>, \<open>nodo_actual\<close>, \<open>camino_actual\<close>, \<open>costo_total\<close> and \<open>visitados\<close>, in
  this order in \<open>PasoHC\<close>. An entry of \<open>evaluaciones\<close> is (vecino, peso, heuristica,
  evaluacion). \<open>Moverse\<close> carries the chosen neighbour, its evaluation and the value of
  the key \<open>camino_final\<close>.
\<close>

type_synonym evaluacion = "nodo \<times> real \<times> real \<times> real"

datatype accion_hc =
    ErrorNodosHC
  | IniciarHC nodo
  | SinVecinos nodo
  | EvaluarVecinos nodo "evaluacion list"
  | TodosVisitados
  | Moverse nodo real "nodo list option"
  | MaximoIteraciones

datatype paso_hc = PasoHC nat accion_hc "nodo option" "nodo list" real "nodo set"

record estado_hc =
  nodo_actual :: nodo
  camino :: "nodo list"
  costo_total :: real
  visitados_hc :: "nodo set"
  pasos_hc :: "paso_hc list"
  paso_hc :: nat

text \<open>
  The \<open>for vecino, peso in vecinos\<close> loop. \<open>mejor\<close> is \<open>None\<close> while \<open>mejor_vecino\<close> is
  \<open>None\<close> (and \<open>mejor_evaluacion\<close> is infinity, above every evaluation); afterwards it
  holds \<open>mejor_vecino\<close>, \<open>mejor_evaluacion\<close> and \<open>mejor_peso\<close>.
\<close>

fun evaluar_vecinos ::
  "posiciones \<Rightarrow> nodo \<Rightarrow> real \<Rightarrow> nodo set \<Rightarrow> (nodo \<times> real) list
     \<Rightarrow> (nodo \<times> real \<times> real) option \<times> evaluacion list
     \<Rightarrow> (nodo \<times> real \<times> real) option \<times> evaluacion list" where
  "evaluar_vecinos pos objetivo costo vis [] acc = acc"
| "evaluar_vecinos pos objetivo costo vis ((vecino, peso) # resto) (mejor, evaluaciones) =
     (if vecino \<in> vis then evaluar_vecinos pos objetivo costo vis resto (mejor, evaluaciones)
      else
        (let heuristica =
               (if pos \<noteq> [] then calcular_heuristica_euclidiana vecino objetivo pos
                else calcular_heuristica_distancia_lineal vecino objetivo);
             costo_nuevo = costo + peso;
             ev = costo_nuevo + heuristica
         in evaluar_vecinos pos objetivo costo vis resto
              (if (case mejor of None \<Rightarrow> True | Some (mv, me, mp) \<Rightarrow> ev < me)
               then Some (vecino, ev, peso) else mejor,
               evaluaciones @ [(vecino, peso, heuristica, ev)])))"

definition registro_hc :: "estado_hc \<Rightarrow> accion_hc \<Rightarrow> paso_hc" where
  "registro_hc st a =
     PasoHC (paso_hc st) a (Some (nodo_actual st)) (camino st) (costo_total st) (visitados_hc st)"

text \<open>
  The body of the \<open>while\<close> loop: \<open>Inl\<close> is a \<open>return\<close> from inside the loop, \<open>Inr\<close> the
  state at the end of the pass.
\<close>

definition hc_iteracion ::
  "'a grafo_scheme \<Rightarrow> posiciones \<Rightarrow> nodo \<Rightarrow> estado_hc
     \<Rightarrow> (nodo list option \<times> paso_hc list) + estado_hc" where
  "hc_iteracion g pos objetivo st =
     (let vecinos = obtener_vecinos_con_peso g (nodo_actual st) in
      if vecinos = [] then Inl (None, pasos_hc st @ [registro_hc st (SinVecinos (nodo_actual st))])
      else
        (case evaluar_vecinos pos objetivo (costo_total st) (visitados_hc st) vecinos (None, []) of
           (mejor, evaluaciones) \<Rightarrow>
             (let st1 = st\<lparr>pasos_hc := pasos_hc st @
                              [registro_hc st (EvaluarVecinos (nodo_actual st) evaluaciones)],
                           paso_hc := paso_hc st + 1\<rparr>
              in case mejor of
                   None \<Rightarrow> Inl (None, pasos_hc st1 @ [registro_hc st1 TodosVisitados])
                 | Some (mejor_vecino, mejor_evaluacion, mejor_peso) \<Rightarrow>
                     (let st2 = st1\<lparr>nodo_actual := mejor_vecino,
                                    camino := camino st1 @ [mejor_vecino],
                                    costo_total := costo_total st1 + mejor_peso,
                                    visitados_hc := insert mejor_vecino (visitados_hc st1)\<rparr>
                      in Inr (st2\<lparr>pasos_hc := pasos_hc st2 @
                                    [registro_hc st2
                                       (Moverse mejor_vecino mejor_evaluacion
                                          (if mejor_vecino = objetivo then Some (camino st2) else None))],
                                  paso_hc := paso_hc st2 + 1\<rparr>)))))"

text \<open>The \<open>while nodo_actual != objetivo and paso < max_iteraciones\<close> loop: \<open>Inr\<close> is the
  state in which the condition failed.\<close>

function hc_loop ::
  "'a grafo_scheme \<Rightarrow> posiciones \<Rightarrow> nodo \<Rightarrow> nat \<Rightarrow> estado_hc
     \<Rightarrow> (nodo list option \<times> paso_hc list) + estado_hc" where
  "hc_loop g pos objetivo max_iteraciones st =
     (if nodo_actual st \<noteq> objetivo \<and> paso_hc st < max_iteraciones then
        (case hc_iteracion g pos objetivo st of
           Inl r \<Rightarrow> Inl r
         | Inr st' \<Rightarrow> hc_loop g pos objetivo max_iteraciones st')
      else Inr st)"
  by pat_completeness auto

text \<open>Every pass that does not return adds two trace entries, so the distance of \<open>paso\<close>
  to \<open>max_iteraciones\<close> shrinks: the loop terminates on every input.\<close>

lemma hc_iteracion_paso:
  "hc_iteracion g pos objetivo st = Inr st' \<Longrightarrow> paso_hc st' = paso_hc st + 2"
  by (auto simp: hc_iteracion_def Let_def split: if_splits prod.splits option.splits)

termination hc_loop
  by (relation "measure (\<lambda>(g, pos, objetivo, max_iteraciones, st). max_iteraciones - paso_hc st)")
     (auto dest: hc_iteracion_paso)

declare hc_loop.simps [simp del]

text \<open>The state when the loop is entered: the initial values and the first trace entry.\<close>

definition estado_inicial_hc :: "nodo \<Rightarrow> estado_hc" where
  "estado_inicial_hc inicio =
     (let st0 = \<lparr>nodo_actual = inicio, camino = [inicio], costo_total = 0,
                 visitados_hc = {inicio}, pasos_hc = [], paso_hc = 0\<rparr>
      in st0\<lparr>pasos_hc := [registro_hc st0 (IniciarHC inicio)], paso_hc := 1\<rparr>)"

text \<open>\<open>AlgoritmoHillClimbing.buscar_camino\<close>.\<close>

definition buscar_camino_hc ::
  "'a grafo_scheme \<Rightarrow> posiciones \<Rightarrow> nodo \<Rightarrow> nodo \<Rightarrow> nodo list option \<times> paso_hc list" where
  "buscar_camino_hc g pos inicio objetivo =
     (if inicio \<notin> nodos g \<or> objetivo \<notin> nodos g then
        (None, [PasoHC 0 ErrorNodosHC None [] 0 {}])
      else
        (let max_iteraciones = card (nodos g) * 2
         in case hc_loop g pos objetivo max_iteraciones (estado_inicial_hc inicio) of
              Inl r \<Rightarrow> r
            | Inr st \<Rightarrow>
                if nodo_actual st = objetivo then (Some (camino st), pasos_hc st)
                else (None, pasos_hc st @ [registro_hc st MaximoIteraciones])))"

section \<open>Scenario graph\<close>

text \<open>The graph of scenarios A and B of the specification: the edges A\<rightarrow>B (1), B\<rightarrow>C (1)
  and A\<rightarrow>C (5), inserted in this order into an empty graph of the second file.\<close>

definition grafo_escenario :: grafo_hc where
  "grafo_escenario =
     insertar_arista (lit ''A'') (lit ''C'') 5
       (insertar_arista (lit ''B'') (lit ''C'') 1 (insertar_arista (lit ''A'') (lit ''B'') 1 grafo_hc_vacio))"

section \<open>Graphs built by the program, and paths\<close>

text \<open>
  The three attributes of a graph are only written by \<open>agregar_arista\<close> and \<open>limpiar\<close>,
  which keep them consistent: the adjacency list of a node holds its outgoing edges in
  insertion order, and the node set holds the endpoints of the edges.
\<close>

definition grafo_ok :: "'a grafo_scheme \<Rightarrow> bool" where
  "grafo_ok g =
     ((\<forall>u. adyacencias g u =
             map (\<lambda>(origen, destino, p). (destino, p))
               (filter (\<lambda>(origen, destino, p). origen = u) (aristas g))) \<and>
      nodos g = (\<Union>(origen, destino, p) \<in> set (aristas g). {origen, destino}))"

text \<open>A directed edge of the graph, whatever its weight, and a directed path from
  \<open>inicio\<close> to \<open>final\<close>: a non-empty node list whose consecutive nodes are joined by
  edges. A path of \<open>n\<close> nodes has \<open>n - 1\<close> edges.\<close>

definition conecta :: "'a grafo_scheme \<Rightarrow> nodo \<Rightarrow> nodo \<Rightarrow> bool" where
  "conecta g u v = ((u, v) \<in> set (map (\<lambda>(origen, destino, p). (origen, destino)) (aristas g)))"

definition es_camino :: "'a grafo_scheme \<Rightarrow> nodo \<Rightarrow> nodo \<Rightarrow> nodo list \<Rightarrow> bool" where
  "es_camino g inicio final xs =
     (xs \<noteq> [] \<and> hd xs = inicio \<and> last xs = final \<and> successively (conecta g) xs)"

section \<open>Invariants of the hill-climbing loop\<close>

text \<open>What \<open>mejor\<close> holds during the neighbour loop: an unvisited neighbour with the
  weight of its edge.\<close>

definition mejor_ok :: "nodo set \<Rightarrow> (nodo \<times> real) list \<Rightarrow> (nodo \<times> real \<times> real) option \<Rightarrow> bool" where
  "mejor_ok vis vs m = (case m of None \<Rightarrow> True | Some (v, e, p) \<Rightarrow> v \<notin> vis \<and> (v, p) \<in> set vs)"

text \<open>The loop invariant: \<open>camino\<close> starts at \<open>inicio\<close>, ends at the current node, follows
  adjacency entries, has no repetition, and \<open>visitados\<close> is its set of nodes; \<open>paso\<close>
  counts the trace entries, two for every move.\<close>

definition hc_inv :: "'a grafo_scheme \<Rightarrow> nodo \<Rightarrow> estado_hc \<Rightarrow> bool" where
  "hc_inv g inicio st =
     (camino st \<noteq> [] \<and> hd (camino st) = inicio \<and> last (camino st) = nodo_actual st \<and>
      distinct (camino st) \<and> set (camino st) = visitados_hc st \<and>
      successively (\<lambda>u v. v \<in> set (obtener_vecinos g u)) (camino st) \<and>
      paso_hc st = length (pasos_hc st) \<and> paso_hc st + 1 = 2 * length (camino st))"




section \<open>What a bulk load produces\<close>

text \<open>The graph obtained from \<open>g\<close> by inserting a list of edges in order.\<close>

definition construir :: "'a grafo_scheme \<Rightarrow> (nodo \<times> nodo \<times> real) list \<Rightarrow> 'a grafo_scheme" where
  "construir g es = foldl (\<lambda>h (origen, destino, p). insertar_arista origen destino p h) g es"

text \<open>The edges of the well-formed records of a list, in order, and the error entries
  of the malformed ones: a record is malformed when reading it raises, and its entry
  carries its position in the list, counted from 1.\<close>

definition aristas_leidas :: "python \<Rightarrow> pyval list \<Rightarrow> (nodo \<times> nodo \<times> real) list" where
  "aristas_leidas py recs =
     concat (map (\<lambda>a. case leer_arista py a of Inr e \<Rightarrow> [e] | Inl x \<Rightarrow> []) recs)"

definition errores_formato :: "python \<Rightarrow> nat \<Rightarrow> pyval list \<Rightarrow> error_carga list" where
  "errores_formato py n recs =
     map (\<lambda>(k, a). FormatoInvalido k)
       (filter (\<lambda>(k, a). isl (leer_arista py a)) (enumerate n recs))"

text \<open>A record is fatal when reading it raises an exception that the handler of the
  record loop does not catch; \<open>antes\<close> are the records before the first fatal one.\<close>

definition fatal :: "python \<Rightarrow> pyval \<Rightarrow> bool" where
  "fatal py a = (case leer_arista py a of Inl e \<Rightarrow> \<not> capturada e | Inr x \<Rightarrow> False)"

definition antes :: "python \<Rightarrow> pyval list \<Rightarrow> pyval list" where
  "antes py recs = takeWhile (\<lambda>a. \<not> fatal py a) recs"

text \<open>A graph whose labels are all normalized: trimming and upper-casing leaves every
  endpoint as it is.\<close>

definition normalizado :: "python \<Rightarrow> 'a grafo_scheme \<Rightarrow> bool" where
  "normalizado py g = (\<forall>(origen, destino, p) \<in> set (aristas g).
                      normalizar py origen = origen \<and> normalizar py destino = destino)"

section \<open>Example inputs\<close>

text \<open>
  The strings of the examples are ASCII. On a string of ASCII characters \<open>s.strip()\<close>
  removes the leading and trailing characters 9 to 13 and 28 to 32, and \<open>s.upper()\<close>
  maps \<open>a\<close> to \<open>z\<close> to \<open>A\<close> to \<open>Z\<close>; \<open>con_ascii py\<close> is \<open>py\<close> with these two functions,
  which the examples apply to ASCII strings only.
\<close>

definition es_espacio_ascii :: "nat \<Rightarrow> bool" where
  "es_espacio_ascii n = ((9 \<le> n \<and> n \<le> 13) \<or> (28 \<le> n \<and> n \<le> 32))"

definition strip_ascii :: "cadena \<Rightarrow> cadena" where
  "strip_ascii s = rev (dropWhile es_espacio_ascii (rev (dropWhile es_espacio_ascii s)))"

definition upper_ascii :: "cadena \<Rightarrow> cadena" where
  "upper_ascii s = map (\<lambda>n. if 97 \<le> n \<and> n \<le> 122 then n - 32 else n) s"

definition con_ascii :: "python \<Rightarrow> python" where
  "con_ascii py = py\<lparr>str_strip := strip_ascii, str_upper := upper_ascii\<rparr>"

text \<open>\<open>py\<close> with \<open>float\<close> raising ValueError on the string \<open>s\<close>, as Python's does on \<open>x\<close>.\<close>

definition sin_float :: "python \<Rightarrow> cadena \<Rightarrow> python" where
  "sin_float py s = py\<lparr>float_str := (float_str py)(s := None)\<rparr>"



text \<open>Three records that have all their fields and a numeric weight; the weight of the
  second is the integer \<open>10 ^ 400\<close>, which is beyond the range of a float.\<close>

definition peso_enorme :: int where
  "peso_enorme = 10 ^ 400"


text \<open>The scenario graph as a graph of the first file, and a graph built by one call
  of \<open>agregar_arista\<close> with labels that are not normalized.\<close>

definition grafo_escenario_a :: grafo where
  "grafo_escenario_a =
     insertar_arista (lit ''A'') (lit ''C'') 5
       (insertar_arista (lit ''B'') (lit ''C'') 1 (insertar_arista (lit ''A'') (lit ''B'') 1 grafo_vacio))"

definition grafo_minusculas :: grafo where
  "grafo_minusculas = insertar_arista (lit ''a'') (lit '' b '') 1 grafo_vacio"

section \<open>Invariant of the breadth-first loop\<close>

text \<open>\<open>v\<close> is in the adjacency list of \<open>u\<close>.\<close>

definition sigue :: "'a grafo_scheme \<Rightarrow> nodo \<Rightarrow> nodo \<Rightarrow> bool" where
  "sigue g u v = (v \<in> set (obtener_vecinos g u))"

text \<open>
  The invariant of \<open>while self.cola\<close>, on the queue \<open>q\<close>, the visited set \<open>V\<close> and the
  parent map \<open>pd\<close>, with a depth \<open>dep\<close> for every visited node (the depth is not a
  variable of the program). The parents form a tree rooted at \<open>inicio\<close> along edges, each
  node one level below its parent; the queue holds visited nodes without repetition in
  order of depth, spanning at most two levels; a visited node that has left the queue
  has all its neighbours visited, none more than one level below it, and is not deeper
  than any queued node; the goal has not left the queue.
\<close>

definition bfs_inv_c ::
  "'a grafo_scheme \<Rightarrow> nodo \<Rightarrow> nodo \<Rightarrow> (nodo \<Rightarrow> nat) \<Rightarrow> nodo list \<Rightarrow> nodo set
     \<Rightarrow> (nodo \<rightharpoonup> nodo option) \<Rightarrow> bool" where
  "bfs_inv_c g inicio final dep q V pd =
     (distinct q \<and> set q \<subseteq> V \<and> V \<subseteq> nodos g \<and>
      inicio \<in> V \<and> dep inicio = 0 \<and> pd inicio = Some None \<and>
      (\<forall>v \<in> V. v \<noteq> inicio \<longrightarrow>
         (\<exists>p. pd v = Some (Some p) \<and> p \<in> V \<and> sigue g p v \<and> dep v = dep p + 1)) \<and>
      sorted (map dep q) \<and>
      (\<forall>a \<in> set q. \<forall>b \<in> set q. dep b \<le> dep a + 1) \<and>
      (\<forall>v \<in> V - set q. \<forall>w. sigue g v w \<longrightarrow> w \<in> V \<and> dep w \<le> dep v + 1) \<and>
      (\<forall>v \<in> V - set q. \<forall>b \<in> set q. dep v \<le> dep b) \<and>
      final \<notin> V - set q)"

definition bfs_inv ::
  "'a grafo_scheme \<Rightarrow> nodo \<Rightarrow> nodo \<Rightarrow> (nodo \<Rightarrow> nat) \<Rightarrow> estado_bfs \<Rightarrow> bool" where
  "bfs_inv g inicio final dep st =
     bfs_inv_c g inicio final dep (cola st) (visitados st) (padre st)"

text \<open>A walk along adjacency entries that starts at \<open>inicio\<close>.\<close>

definition recorrido :: "'a grafo_scheme \<Rightarrow> nodo \<Rightarrow> nodo list \<Rightarrow> bool" where
  "recorrido g inicio xs = (xs \<noteq> [] \<and> hd xs = inicio \<and> successively (sigue g) xs)"

text \<open>What the loop returns: no path only when no walk from \<open>inicio\<close> ends at \<open>final\<close>,
  and otherwise a walk from \<open>inicio\<close> to \<open>final\<close> that no other such walk is shorter
  than.\<close>

definition bfs_post :: "'a grafo_scheme \<Rightarrow> nodo \<Rightarrow> nodo \<Rightarrow> nodo list option \<Rightarrow> bool" where
  "bfs_post g inicio final r =
     (case r of
        None \<Rightarrow> (\<forall>ch. recorrido g inicio ch \<longrightarrow> last ch \<noteq> final)
      | Some cam \<Rightarrow>
          recorrido g inicio cam \<and> last cam = final \<and>
          (\<forall>ch. recorrido g inicio ch \<and> last ch = final \<longrightarrow> length cam \<le> length ch))"

section \<open>String literals\<close>

lemma lit_eq_iff [simp]: "lit a = lit b \<longleftrightarrow> a = b"
  by (simp add: lit_def inj_map_eq_map inj_on_def)

section \<open>Consistent graphs\<close>

lemma grafo_ok_vecinos:
  "grafo_ok g \<Longrightarrow> v \<in> set (obtener_vecinos g u) \<longleftrightarrow> conecta g u v"
  by (force simp: grafo_ok_def obtener_vecinos_def conecta_def)

lemma grafo_ok_vecinos_nodos:
  "grafo_ok g \<Longrightarrow> v \<in> set (obtener_vecinos g u) \<Longrightarrow> v \<in> nodos g \<and> u \<in> nodos g"
  by (force simp: grafo_ok_def obtener_vecinos_def)

lemma grafo_ok_finite: "grafo_ok g \<Longrightarrow> finite (nodos g)"
  by (auto simp: grafo_ok_def)

lemma grafo_ok_vacio: "grafo_ok grafo_vacio" "grafo_ok grafo_hc_vacio"
  by (simp_all add: grafo_ok_def grafo_vacio_def grafo_hc_vacio_def)

lemma grafo_ok_insertar: "grafo_ok g \<Longrightarrow> grafo_ok (insertar_arista a b p g)"
  by (auto simp: grafo_ok_def insertar_arista_def)

section \<open>The hill-climbing loop keeps its invariant\<close>

lemma evaluar_vecinos_mejor:
  "mejor_ok vis S m \<Longrightarrow> set vs \<subseteq> set S \<Longrightarrow>
     mejor_ok vis S (fst (evaluar_vecinos pos objetivo c vis vs (m, evs)))"
proof (induction vs arbitrary: m evs)
  case Nil
  then show ?case by simp
next
  case (Cons a vs)
  obtain v p where a: "a = (v, p)" by (cases a)
  from Cons.prems a have S: "(v, p) \<in> set S" "set vs \<subseteq> set S" by auto
  show ?case
  proof (cases "v \<in> vis")
    case True
    with Cons.IH [OF Cons.prems(1) S(2)] a show ?thesis by simp
  next
    case False
    obtain m' evs' where step:
      "evaluar_vecinos pos objetivo c vis (a # vs) (m, evs) =
         evaluar_vecinos pos objetivo c vis vs (m', evs')"
      and m': "m' = m \<or> (\<exists>e. m' = Some (v, e, p))"
      using False a by (simp add: Let_def)
    from m' Cons.prems(1) S(1) False have "mejor_ok vis S m'"
      by (auto simp: mejor_ok_def)
    from Cons.IH [OF this S(2)] step show ?thesis by simp
  qed
qed


lemma hc_inv_inicial: "hc_inv g inicio (estado_inicial_hc inicio)"
  by (simp add: hc_inv_def estado_inicial_hc_def Let_def)

lemma hc_iteracion_Inr:
  assumes "hc_iteracion g pos objetivo st = Inr st'"
  shows "\<exists>mv mp. (mv, mp) \<in> set (adyacencias g (nodo_actual st)) \<and> mv \<notin> visitados_hc st \<and>
           nodo_actual st' = mv \<and> camino st' = camino st @ [mv] \<and>
           visitados_hc st' = insert mv (visitados_hc st) \<and>
           costo_total st' = costo_total st + mp \<and>
           paso_hc st' = paso_hc st + 2 \<and> length (pasos_hc st') = length (pasos_hc st) + 2"
proof -
  let ?vs = "adyacencias g (nodo_actual st)"
  obtain m evs where ev:
    "evaluar_vecinos pos objetivo (costo_total st) (visitados_hc st) ?vs (None, []) = (m, evs)"
    by (cases "evaluar_vecinos pos objetivo (costo_total st) (visitados_hc st) ?vs (None, [])")
  have "mejor_ok (visitados_hc st) ?vs None" by (simp add: mejor_ok_def)
  from evaluar_vecinos_mejor [OF this subset_refl, of pos objetivo "costo_total st" "[]"] ev
  have ok: "mejor_ok (visitados_hc st) ?vs m" by simp
  from assms ev obtain mv me mp where m: "m = Some (mv, me, mp)"
    by (auto simp: hc_iteracion_def obtener_vecinos_con_peso_def Let_def
        split: if_splits option.splits)
  from ok m have "(mv, mp) \<in> set ?vs" "mv \<notin> visitados_hc st"
    by (simp_all add: mejor_ok_def)
  moreover from assms ev m have "nodo_actual st' = mv" "camino st' = camino st @ [mv]"
    "visitados_hc st' = insert mv (visitados_hc st)" "costo_total st' = costo_total st + mp"
    "paso_hc st' = paso_hc st + 2" "length (pasos_hc st') = length (pasos_hc st) + 2"
    by (auto simp: hc_iteracion_def obtener_vecinos_con_peso_def Let_def split: if_splits)
  ultimately show ?thesis by blast
qed

lemma hc_iteracion_inv:
  assumes "hc_inv g inicio st" "hc_iteracion g pos objetivo st = Inr st'"
  shows "hc_inv g inicio st'"
proof -
  from hc_iteracion_Inr [OF assms(2)] obtain mv mp where
    mv: "(mv, mp) \<in> set (adyacencias g (nodo_actual st))" "mv \<notin> visitados_hc st"
    and st': "nodo_actual st' = mv" "camino st' = camino st @ [mv]"
      "visitados_hc st' = insert mv (visitados_hc st)"
      "paso_hc st' = paso_hc st + 2" "length (pasos_hc st') = length (pasos_hc st) + 2"
    by blast
  from mv(1) have "mv \<in> set (obtener_vecinos g (nodo_actual st))"
    by (force simp: obtener_vecinos_def)
  with assms(1) mv(2) st' show ?thesis
    by (auto simp: hc_inv_def successively_append_iff)
qed

lemma hc_iteracion_Inl:
  assumes "hc_iteracion g pos objetivo st = Inl r"
  shows "fst r = None \<and> length (snd r) \<le> length (pasos_hc st) + 2"
  using assms
  by (auto simp: hc_iteracion_def Let_def split: if_splits prod.splits option.splits)

lemma hc_loop_Inr:
  "hc_inv g inicio st \<Longrightarrow> hc_loop g pos objetivo m st = Inr st' \<Longrightarrow>
     hc_inv g inicio st' \<and> (nodo_actual st' = objetivo \<or> m \<le> paso_hc st') \<and>
     paso_hc st' \<le> max (paso_hc st) (m + 1)"
proof (induction g pos objetivo m st rule: hc_loop.induct)
  case (1 g pos objetivo m st)
  show ?case
  proof (cases "nodo_actual st \<noteq> objetivo \<and> paso_hc st < m")
    case False
    with "1.prems" show ?thesis
      by (auto simp: hc_loop.simps)
  next
    case True
    with "1.prems"(2) obtain st1 where it: "hc_iteracion g pos objetivo st = Inr st1"
      and lp: "hc_loop g pos objetivo m st1 = Inr st'"
      by (auto simp: hc_loop.simps [of g pos objetivo m st] split: sum.splits)
    from hc_iteracion_inv [OF "1.prems"(1) it] have inv1: "hc_inv g inicio st1" .
    from hc_iteracion_paso [OF it] have p1: "paso_hc st1 = paso_hc st + 2" .
    from "1.IH" [OF True it inv1 lp] p1 True show ?thesis
      by auto
  qed
qed

lemma hc_loop_Inl:
  "hc_inv g inicio st \<Longrightarrow> hc_loop g pos objetivo m st = Inl r \<Longrightarrow>
     fst r = None \<and> length (snd r) \<le> m + 1"
proof (induction g pos objetivo m st rule: hc_loop.induct)
  case (1 g pos objetivo m st)
  show ?case
  proof (cases "nodo_actual st \<noteq> objetivo \<and> paso_hc st < m")
    case False
    with "1.prems" show ?thesis
      by (auto simp: hc_loop.simps)
  next
    case True
    show ?thesis
    proof (cases "hc_iteracion g pos objetivo st")
      case (Inl r')
      with True "1.prems"(2) have "r' = r"
        by (simp add: hc_loop.simps [of g pos objetivo m st])
      with hc_iteracion_Inl [OF Inl] True "1.prems"(1) show ?thesis
        by (auto simp: hc_inv_def)
    next
      case (Inr st1)
      with True "1.prems"(2) have lp: "hc_loop g pos objetivo m st1 = Inl r"
        by (simp add: hc_loop.simps [of g pos objetivo m st])
      from "1.IH" [OF True Inr hc_iteracion_inv [OF "1.prems"(1) Inr] lp] show ?thesis .
    qed
  qed
qed

lemma buscar_camino_hc_conocidos:
  "inicio \<in> nodos g \<Longrightarrow> objetivo \<in> nodos g \<Longrightarrow>
   buscar_camino_hc g pos inicio objetivo =
     (case hc_loop g pos objetivo (card (nodos g) * 2) (estado_inicial_hc inicio) of
        Inl r \<Rightarrow> r
      | Inr st \<Rightarrow>
          if nodo_actual st = objetivo then (Some (camino st), pasos_hc st)
          else (None, pasos_hc st @ [registro_hc st MaximoIteraciones]))"
  by (simp add: buscar_camino_hc_def)

lemma buscar_camino_hc_Some:
  assumes r: "buscar_camino_hc g pos inicio objetivo = (Some cam, ps)"
  shows "\<exists>st. hc_loop g pos objetivo (card (nodos g) * 2) (estado_inicial_hc inicio) = Inr st \<and>
           nodo_actual st = objetivo \<and> cam = camino st \<and> ps = pasos_hc st \<and> hc_inv g inicio st"
proof -
  let ?lp = "hc_loop g pos objetivo (card (nodos g) * 2) (estado_inicial_hc inicio)"
  have known: "inicio \<in> nodos g" "objetivo \<in> nodos g"
    using r by (simp_all add: buscar_camino_hc_def split: if_splits)
  note eq = buscar_camino_hc_conocidos [OF known, of pos]
  show ?thesis
  proof (cases ?lp)
    case (Inl x)
    from hc_loop_Inl [OF hc_inv_inicial Inl] have "fst x = None" by simp
    moreover from r eq Inl have "x = (Some cam, ps)" by simp
    ultimately show ?thesis by simp
  next
    case (Inr st)
    from hc_loop_Inr [OF hc_inv_inicial Inr] have inv: "hc_inv g inicio st" by simp
    from r eq Inr have "nodo_actual st = objetivo \<and> cam = camino st \<and> ps = pasos_hc st"
      by (simp split: if_splits)
    with Inr inv show ?thesis by simp
  qed
qed







section \<open>The breadth-first loop keeps its invariant\<close>

lemma explorar_vecinos_eq:
  "\<exists>nuevos. explorar_vecinos u vs (st, nv) =
       (st\<lparr>cola := cola st @ nuevos, visitados := visitados st \<union> set nuevos,
           padre := (\<lambda>w. if w \<in> set nuevos then Some (Some u) else padre st w)\<rparr>,
        nv @ nuevos) \<and>
     distinct nuevos \<and> set nuevos = set vs - visitados st"
proof (induction vs arbitrary: st nv)
  case Nil
  show ?case by (rule exI [of _ "[]"]) simp
next
  case (Cons v vs)
  show ?case
  proof (cases "v \<in> visitados st")
    case True
    from Cons [of st nv] obtain nuevos where
      "explorar_vecinos u vs (st, nv) =
       (st\<lparr>cola := cola st @ nuevos, visitados := visitados st \<union> set nuevos,
           padre := (\<lambda>w. if w \<in> set nuevos then Some (Some u) else padre st w)\<rparr>,
        nv @ nuevos)" "distinct nuevos" "set nuevos = set vs - visitados st"
      by blast
    with True show ?thesis
      by (intro exI [of _ nuevos]) auto
  next
    case False
    let ?st = "st\<lparr>cola := cola st @ [v], visitados := insert v (visitados st),
                   padre := (padre st)(v \<mapsto> Some u)\<rparr>"
    from Cons [of ?st "nv @ [v]"] obtain nuevos where
      e: "explorar_vecinos u vs (?st, nv @ [v]) =
       (?st\<lparr>cola := cola ?st @ nuevos, visitados := visitados ?st \<union> set nuevos,
           padre := (\<lambda>w. if w \<in> set nuevos then Some (Some u) else padre ?st w)\<rparr>,
        (nv @ [v]) @ nuevos)" and d: "distinct nuevos"
      and s: "set nuevos = set vs - visitados ?st"
      by blast
    have pd: "(\<lambda>w. if w \<in> set nuevos then Some (Some u) else padre ?st w) =
              (\<lambda>w. if w \<in> set (v # nuevos) then Some (Some u) else padre st w)"
      by (rule ext) simp
    from e have "explorar_vecinos u vs (?st, nv @ [v]) =
       (?st\<lparr>cola := cola ?st @ nuevos, visitados := visitados ?st \<union> set nuevos,
           padre := (\<lambda>w. if w \<in> set (v # nuevos) then Some (Some u) else padre st w)\<rparr>,
        (nv @ [v]) @ nuevos)"
      by (simp only: pd)
    with False have "explorar_vecinos u (v # vs) (st, nv) =
       (st\<lparr>cola := cola st @ (v # nuevos), visitados := visitados st \<union> set (v # nuevos),
           padre := (\<lambda>w. if w \<in> set (v # nuevos) then Some (Some u) else padre st w)\<rparr>,
        nv @ (v # nuevos))"
      by simp
    moreover from d s False have "distinct (v # nuevos)" "set (v # nuevos) = set (v # vs) - visitados st"
      by auto
    ultimately show ?thesis by blast
  qed
qed

lemma expandir_desencolar:
  "\<exists>nuevos. cola (expandir g u (desencolar u resto st)) = resto @ nuevos \<and>
     visitados (expandir g u (desencolar u resto st)) = visitados st \<union> set nuevos \<and>
     padre (expandir g u (desencolar u resto st)) =
       (\<lambda>w. if w \<in> set nuevos then Some (Some u) else padre st w) \<and>
     distinct nuevos \<and> set nuevos = set (obtener_vecinos g u) - visitados st"
proof -
  let ?st1 = "desencolar u resto st"
  from explorar_vecinos_eq [of u "obtener_vecinos g u" ?st1 "[]"] obtain nuevos where
    e: "explorar_vecinos u (obtener_vecinos g u) (?st1, []) =
       (?st1\<lparr>cola := cola ?st1 @ nuevos, visitados := visitados ?st1 \<union> set nuevos,
           padre := (\<lambda>w. if w \<in> set nuevos then Some (Some u) else padre ?st1 w)\<rparr>,
        [] @ nuevos)" and d: "distinct nuevos"
    and s: "set nuevos = set (obtener_vecinos g u) - visitados ?st1"
    by blast
  have f: "cola ?st1 = resto" "visitados ?st1 = visitados st" "padre ?st1 = padre st"
    by (simp_all add: desencolar_def)
  from e have "explorar_vecinos u (obtener_vecinos g u) (?st1, []) =
       (?st1\<lparr>cola := resto @ nuevos, visitados := visitados st \<union> set nuevos,
           padre := (\<lambda>w. if w \<in> set nuevos then Some (Some u) else padre st w)\<rparr>,
        nuevos)"
    by (simp only: f append_Nil)
  then have "cola (expandir g u ?st1) = resto @ nuevos \<and>
     visitados (expandir g u ?st1) = visitados st \<union> set nuevos \<and>
     padre (expandir g u ?st1) = (\<lambda>w. if w \<in> set nuevos then Some (Some u) else padre st w)"
    by (simp add: expandir_def)
  with d s f show ?thesis by auto
qed


lemma sorted_map_const: "(\<forall>x\<in>set xs. f x = (c::nat)) \<Longrightarrow> sorted (map f xs)"
  by (induction xs) auto

lemma bfs_inv_c_paso:
  assumes ok: "grafo_ok g"
    and inv: "bfs_inv_c g inicio final dep (u # resto) V pd"
    and ne: "u \<noteq> final"
    and d: "distinct nuevos"
    and s: "set nuevos = set (obtener_vecinos g u) - V"
  shows "bfs_inv_c g inicio final (\<lambda>w. if w \<in> set nuevos then dep u + 1 else dep w)
           (resto @ nuevos) (V \<union> set nuevos)
           (\<lambda>w. if w \<in> set nuevos then Some (Some u) else pd w)"
proof -
  define dep' where "dep' = (\<lambda>w. if w \<in> set nuevos then dep u + 1 else dep w)"
  define pd' where "pd' = (\<lambda>w. if w \<in> set nuevos then Some (Some u) else pd w)"
  let ?V = "V \<union> set nuevos"
  let ?q = "resto @ nuevos"
  from inv have i1: "distinct resto" "u \<notin> set resto"
    and i2: "u \<in> V" "set resto \<subseteq> V"
    and i3: "V \<subseteq> nodos g"
    and i4: "inicio \<in> V" "dep inicio = 0" "pd inicio = Some None"
    and i6: "sorted (map dep (u # resto))"
    by (simp_all add: bfs_inv_c_def)
  from inv have i5: "\<forall>v \<in> V. v \<noteq> inicio \<longrightarrow>
         (\<exists>p. pd v = Some (Some p) \<and> p \<in> V \<and> sigue g p v \<and> dep v = dep p + 1)"
    and i7: "\<forall>a \<in> set (u # resto). \<forall>b \<in> set (u # resto). dep b \<le> dep a + 1"
    and i8: "\<forall>v \<in> V - set (u # resto). \<forall>w. sigue g v w \<longrightarrow> w \<in> V \<and> dep w \<le> dep v + 1"
    and i9: "\<forall>v \<in> V - set (u # resto). \<forall>b \<in> set (u # resto). dep v \<le> dep b"
    and i10: "final \<notin> V - set (u # resto)"
    unfolding bfs_inv_c_def by blast+
  from i6 have hd_min: "\<And>b. b \<in> set resto \<Longrightarrow> dep u \<le> dep b" and i6': "sorted (map dep resto)"
    by auto
  have uq: "u \<in> set (u # resto)" by simp
  have i7u: "dep b \<le> dep u + 1" if "b \<in> set (u # resto)" for b
    using bspec [OF bspec [OF i7 uq] that] .
  have i9u: "dep v \<le> dep u" if "v \<in> V - set (u # resto)" for v
    using bspec [OF bspec [OF i9 that] uq] .
  have dV: "dep' w = dep w" if "w \<in> V" for w using that s by (auto simp: dep'_def)
  have dN: "dep' w = dep u + 1" if "w \<in> set nuevos" for w using that by (simp add: dep'_def)
  have pV: "pd' w = pd w" if "w \<in> V" for w using that s by (auto simp: pd'_def)
  have pN: "pd' w = Some (Some u)" if "w \<in> set nuevos" for w using that by (simp add: pd'_def)
  have sN: "sigue g u w" "w \<notin> V" if "w \<in> set nuevos" for w using that s by (auto simp: sigue_def)
  have du: "dep' u = dep u" using dV i2(1) by blast
  have c1: "distinct ?q" using i1 d sN(2) i2(2) by auto
  have c2: "set ?q \<subseteq> ?V" using i2 by auto
  have c3: "?V \<subseteq> nodos g"
  proof
    fix w assume "w \<in> ?V"
    then show "w \<in> nodos g"
    proof
      assume "w \<in> V" with i3 show ?thesis by blast
    next
      assume "w \<in> set nuevos"
      with s have "w \<in> set (obtener_vecinos g u)" by simp
      with grafo_ok_vecinos_nodos [OF ok] show ?thesis by blast
    qed
  qed
  have c4: "inicio \<in> ?V" using i4 by simp
  have c5: "dep' inicio = 0" using dV [OF i4(1)] i4(2) by simp
  have c6: "pd' inicio = Some None" using i4 pV by simp
  have c7: "\<forall>v \<in> ?V. v \<noteq> inicio \<longrightarrow>
         (\<exists>p. pd' v = Some (Some p) \<and> p \<in> ?V \<and> sigue g p v \<and> dep' v = dep' p + 1)"
  proof (intro ballI impI)
    fix v assume v: "v \<in> ?V" and vi: "v \<noteq> inicio"
    show "\<exists>p. pd' v = Some (Some p) \<and> p \<in> ?V \<and> sigue g p v \<and> dep' v = dep' p + 1"
    proof (cases "v \<in> set nuevos")
      case True
      with sN(1) [OF True] i2(1) du dN [OF True] pN [OF True] show ?thesis
        by (intro exI [of _ u]) simp
    next
      case False
      with v have vV: "v \<in> V" by simp
      with i5 vi obtain p where p: "pd v = Some (Some p)" "p \<in> V" "sigue g p v" "dep v = dep p + 1"
        by blast
      from p dV [OF vV] dV [OF p(2)] pV [OF vV] show ?thesis
        by (intro exI [of _ p]) simp
    qed
  qed
  have c8: "sorted (map dep' (resto @ nuevos))"
  proof -
    have "map dep' resto = map dep resto"
    proof (rule map_cong [OF refl])
      fix x assume "x \<in> set resto"
      with i2(2) have "x \<in> V" by blast
      then show "dep' x = dep x" by (rule dV)
    qed
    with i6' have a: "sorted (map dep' resto)" by (simp only:)
    have b: "sorted (map dep' nuevos)"
      by (rule sorted_map_const [of _ _ "dep u + 1"]) (simp add: dN)
    have c: "dep' x \<le> dep' y" if "x \<in> set resto" "y \<in> set nuevos" for x y
    proof -
      from that(1) i2(2) have "dep' x = dep x" using dV by blast
      moreover from i7u [of x] that(1) have "dep x \<le> dep u + 1" by simp
      ultimately show ?thesis using dN [OF that(2)] by simp
    qed
    from a b c show ?thesis by (auto simp: sorted_append)
  qed
  have c9: "\<forall>a \<in> set ?q. \<forall>b \<in> set ?q. dep' b \<le> dep' a + 1"
  proof (intro ballI)
    fix a b assume a: "a \<in> set ?q" and b: "b \<in> set ?q"
    have da: "dep u \<le> dep' a"
    proof (cases "a \<in> set nuevos")
      case True then show ?thesis by (simp add: dN)
    next
      case False
      with a have ar: "a \<in> set resto" by simp
      with i2(2) have "a \<in> V" by blast
      with hd_min [OF ar] dV show ?thesis by simp
    qed
    have db: "dep' b \<le> dep u + 1"
    proof (cases "b \<in> set nuevos")
      case True then show ?thesis by (simp add: dN)
    next
      case False
      with b have br: "b \<in> set resto" by simp
      with i7u [of b] have "dep b \<le> dep u + 1" by simp
      moreover from br i2(2) have "b \<in> V" by blast
      ultimately show ?thesis using dV by simp
    qed
    from da db show "dep' b \<le> dep' a + 1" by linarith
  qed
  have proc: "v \<in> V \<and> v \<notin> set nuevos \<and> (v = u \<or> v \<in> V - set (u # resto))"
    if "v \<in> ?V - set ?q" for v
    using that by auto
  have c10: "\<forall>v \<in> ?V - set ?q. \<forall>w. sigue g v w \<longrightarrow> w \<in> ?V \<and> dep' w \<le> dep' v + 1"
  proof (intro ballI allI impI)
    fix v w assume v: "v \<in> ?V - set ?q" and e: "sigue g v w"
    from proc [OF v] have vV: "v \<in> V" and cases: "v = u \<or> v \<in> V - set (u # resto)" by blast+
    from cases show "w \<in> ?V \<and> dep' w \<le> dep' v + 1"
    proof
      assume vu: "v = u"
      show ?thesis
      proof (cases "w \<in> V")
        case False
        with e vu s have "w \<in> set nuevos" by (simp add: sigue_def)
        with vu du dN show ?thesis by simp
      next
        case True
        have "dep w \<le> dep u + 1"
        proof (cases "w \<in> set (u # resto)")
          case True
          then show ?thesis by (rule i7u)
        next
          case False
          with True have "w \<in> V - set (u # resto)" by simp
          from i9u [OF this] show ?thesis by simp
        qed
        with True vu du dV [OF True] show ?thesis by simp
      qed
    next
      assume old: "v \<in> V - set (u # resto)"
      with i8 e have w: "w \<in> V" "dep w \<le> dep v + 1" by blast+
      with dV [OF w(1)] dV [OF vV] show ?thesis by simp
    qed
  qed
  have c11: "\<forall>v \<in> ?V - set ?q. \<forall>b \<in> set ?q. dep' v \<le> dep' b"
  proof (intro ballI)
    fix v b assume v: "v \<in> ?V - set ?q" and b: "b \<in> set ?q"
    from proc [OF v] have vV: "v \<in> V" and cases: "v = u \<or> v \<in> V - set (u # resto)" by blast+
    have vu: "dep v \<le> dep u"
      using cases i9u by auto
    have ub: "dep u \<le> dep' b"
    proof (cases "b \<in> set nuevos")
      case True then show ?thesis by (simp add: dN)
    next
      case False
      with b have br: "b \<in> set resto" by simp
      with i2(2) have "b \<in> V" by blast
      with hd_min [OF br] dV show ?thesis by simp
    qed
    from vu ub dV [OF vV] show "dep' v \<le> dep' b" by simp
  qed
  have c12: "final \<notin> ?V - set ?q"
  proof
    assume "final \<in> ?V - set ?q"
    from proc [OF this] ne i10 show False by blast
  qed
  have "bfs_inv_c g inicio final dep' (resto @ nuevos) (V \<union> set nuevos) pd'"
    unfolding bfs_inv_c_def
    by (intro conjI) (fact c1 c2 c3 c4 c5 c6 c7 c8 c9 c10 c11 c12)+
  then show ?thesis unfolding dep'_def pd'_def .
qed

lemma reconstruir_loop_ok:
  assumes inv: "bfs_inv_c g inicio final dep q V pd"
  shows "v \<in> V \<Longrightarrow>
    \<exists>ch. reconstruir_loop pd (Some v) acc = Some (Inr (ch @ rev acc)) \<and>
         recorrido g inicio ch \<and> last ch = v \<and> length ch = dep v + 1"
proof (induction "dep v" arbitrary: v acc)
  case 0
  from inv have i4: "dep inicio = 0" "pd inicio = Some None"
    and i5: "\<forall>v \<in> V. v \<noteq> inicio \<longrightarrow>
         (\<exists>p. pd v = Some (Some p) \<and> p \<in> V \<and> sigue g p v \<and> dep v = dep p + 1)"
    unfolding bfs_inv_c_def by blast+
  have "v = inicio"
  proof (rule ccontr)
    assume "v \<noteq> inicio"
    with i5 "0.prems" obtain p where "dep v = dep p + 1" by blast
    with "0.hyps" show False by simp
  qed
  with i4 have "reconstruir_loop pd (Some v) acc = Some (Inr ([inicio] @ rev acc))"
    by (simp add: reconstruir_loop.simps [of pd "Some inicio"] reconstruir_loop.simps [of pd None])
  moreover have "recorrido g inicio [inicio]" by (simp add: recorrido_def)
  ultimately show ?case using \<open>v = inicio\<close> i4 by (intro exI [of _ "[inicio]"]) simp
next
  case (Suc n)
  from inv have i4: "dep inicio = 0"
    and i5: "\<forall>v \<in> V. v \<noteq> inicio \<longrightarrow>
         (\<exists>p. pd v = Some (Some p) \<and> p \<in> V \<and> sigue g p v \<and> dep v = dep p + 1)"
    unfolding bfs_inv_c_def by blast+
  from Suc.hyps(2) i4 have "v \<noteq> inicio" by auto
  with i5 Suc.prems obtain p where p: "pd v = Some (Some p)" "p \<in> V" "sigue g p v"
    "dep v = dep p + 1" by blast
  from p(4) Suc.hyps(2) have "n = dep p" by simp
  from Suc.hyps(1) [OF this p(2), of "acc @ [v]"] obtain ch where
    ch: "reconstruir_loop pd (Some p) (acc @ [v]) = Some (Inr (ch @ rev (acc @ [v])))"
    "recorrido g inicio ch" "last ch = p" "length ch = dep p + 1"
    by blast
  from p(1) ch(1) have "reconstruir_loop pd (Some v) acc = Some (Inr ((ch @ [v]) @ rev acc))"
    by (simp add: reconstruir_loop.simps [of pd "Some v"])
  moreover from ch(2,3) p(3) have "recorrido g inicio (ch @ [v])"
    by (simp add: recorrido_def successively_append_iff)
  ultimately show ?case using ch(4) p(4)
    by (intro exI [of _ "ch @ [v]"]) simp
qed

lemma bfs_cota_inferior:
  assumes inv: "bfs_inv_c g inicio final dep q V pd"
  shows "recorrido g inicio ch \<Longrightarrow>
     (last ch \<in> V \<and> dep (last ch) + 1 \<le> length ch) \<or>
     (q \<noteq> [] \<and> (\<forall>b \<in> set q. dep b + 1 \<le> length ch))"
proof (induction ch rule: rev_induct)
  case Nil
  then show ?case by (simp add: recorrido_def)
next
  case (snoc y xs)
  from inv have i4: "inicio \<in> V" "dep inicio = 0"
    and i7: "\<forall>a \<in> set q. \<forall>b \<in> set q. dep b \<le> dep a + 1"
    and i8: "\<forall>v \<in> V - set q. \<forall>w. sigue g v w \<longrightarrow> w \<in> V \<and> dep w \<le> dep v + 1"
    unfolding bfs_inv_c_def by blast+
  show ?case
  proof (cases "xs = []")
    case True
    with snoc.prems have "y = inicio" by (simp add: recorrido_def)
    with True i4 show ?thesis by simp
  next
    case False
    with snoc.prems have r: "recorrido g inicio xs" and e: "sigue g (last xs) y"
      by (simp_all add: recorrido_def successively_append_iff)
    from snoc.IH [OF r] show ?thesis
    proof
      assume "q \<noteq> [] \<and> (\<forall>b \<in> set q. dep b + 1 \<le> length xs)"
      then show ?thesis by auto
    next
      assume a: "last xs \<in> V \<and> dep (last xs) + 1 \<le> length xs"
      show ?thesis
      proof (cases "last xs \<in> set q")
        case True
        then have "q \<noteq> []" by auto
        moreover have "dep b + 1 \<le> length (xs @ [y])" if "b \<in> set q" for b
        proof -
          from bspec [OF bspec [OF i7 True] that] have "dep b \<le> dep (last xs) + 1" .
          with a show ?thesis by simp
        qed
        ultimately show ?thesis by blast
      next
        case False
        with a have "last xs \<in> V - set q" by simp
        with i8 e have "y \<in> V" "dep y \<le> dep (last xs) + 1" by blast+
        with a show ?thesis by simp
      qed
    qed
  qed
qed

lemma bfs_medida:
  assumes "finite A" "V \<subseteq> A" "distinct nuevos" "set nuevos \<subseteq> A - V"
  shows "2 * card (A - (V \<union> set nuevos)) + length (resto @ nuevos)
           < 2 * card (A - V) + length (u # resto)"
proof -
  have "A - (V \<union> set nuevos) = (A - V) - set nuevos" by blast
  then have "card (A - (V \<union> set nuevos)) = card (A - V) - card (set nuevos)"
    using assms(4) by (simp add: card_Diff_subset)
  moreover have "card (set nuevos) = length nuevos" using assms(3) by (rule distinct_card)
  moreover have "card (set nuevos) \<le> card (A - V)"
    using assms(1,4) by (intro card_mono) auto
  ultimately show ?thesis by simp
qed

lemma bfs_loop_correcto:
  assumes ok: "grafo_ok g"
  shows "bfs_inv g inicio final dep st \<Longrightarrow>
     \<exists>r ps. bfs_loop g inicio final st = Some (Inr (r, ps)) \<and> bfs_post g inicio final r"
proof (induction "2 * card (nodos g - visitados st) + length (cola st)" arbitrary: st dep
    rule: less_induct)
  case less
  note inv = less.prems [unfolded bfs_inv_def]
  show ?case
  proof (cases "cola st")
    case Nil
    have "bfs_post g inicio final None"
      unfolding bfs_post_def option.case
    proof (intro allI impI)
      fix ch assume r: "recorrido g inicio ch"
      from bfs_cota_inferior [OF inv r] Nil have "last ch \<in> visitados st" by simp
      moreover from inv Nil have "final \<notin> visitados st" by (simp add: bfs_inv_c_def)
      ultimately show "last ch \<noteq> final" by blast
    qed
    moreover from Nil have "bfs_loop g inicio final st =
      Some (Inr (None, pasos_busqueda st @ [PasoBFS (paso st) NoExisteCamino [] (visitados st) None]))"
      by (simp add: bfs_loop.simps [of g inicio final st])
    ultimately show ?thesis by blast
  next
    case (Cons u resto)
    note inv' = inv [unfolded Cons]
    from inv' have uV: "u \<in> visitados st" and sub: "visitados st \<subseteq> nodos g"
      by (simp_all add: bfs_inv_c_def)
    show ?thesis
    proof (cases "u = final")
      case True
      from reconstruir_loop_ok [OF inv' uV, of "[]"] obtain cam where
        cam: "reconstruir_loop (padre st) (Some u) [] = Some (Inr cam)"
        "recorrido g inicio cam" "last cam = u" "length cam = dep u + 1"
        by auto
      have "bfs_post g inicio final (Some cam)"
        unfolding bfs_post_def option.case
      proof (intro conjI allI impI)
        show "recorrido g inicio cam" by fact
        show "last cam = final" using cam(3) True by simp
      next
        fix ch assume "recorrido g inicio ch \<and> last ch = final"
        then have r: "recorrido g inicio ch" and l: "last ch = final" by simp_all
        from bfs_cota_inferior [OF inv' r] l True have "dep u + 1 \<le> length ch" by auto
        with cam(4) show "length cam \<le> length ch" by simp
      qed
      moreover from Cons True cam(1) have "\<exists>ps. bfs_loop g inicio final st = Some (Inr (Some cam, ps))"
        by (simp add: bfs_loop.simps [of g inicio final st] reconstruir_camino_def)
      ultimately show ?thesis by blast
    next
      case False
      let ?st' = "expandir g u (desencolar u resto st)"
      from expandir_desencolar [of g u resto st] obtain nuevos where
        n: "cola ?st' = resto @ nuevos" "visitados ?st' = visitados st \<union> set nuevos"
        "padre ?st' = (\<lambda>w. if w \<in> set nuevos then Some (Some u) else padre st w)"
        "distinct nuevos" "set nuevos = set (obtener_vecinos g u) - visitados st"
        by blast
      from bfs_inv_c_paso [OF ok inv' False n(4,5)]
      have inv2: "bfs_inv g inicio final (\<lambda>w. if w \<in> set nuevos then dep u + 1 else dep w) ?st'"
        by (simp add: bfs_inv_def n)
      have "set nuevos \<subseteq> nodos g - visitados st"
        using n(5) grafo_ok_vecinos_nodos [OF ok] by blast
      from bfs_medida [OF grafo_ok_finite [OF ok] sub n(4) this, of resto u]
      have m: "2 * card (nodos g - visitados ?st') + length (cola ?st')
                 < 2 * card (nodos g - visitados st) + length (cola st)"
        by (simp add: n Cons)
      from less.hyps [OF m inv2] obtain r ps where
        "bfs_loop g inicio final ?st' = Some (Inr (r, ps))" "bfs_post g inicio final r"
        by blast
      moreover from Cons False have "bfs_loop g inicio final st = bfs_loop g inicio final ?st'"
        by (simp add: bfs_loop.simps [of g inicio final st])
      ultimately show ?thesis by auto
    qed
  qed
qed

lemma bfs_inv_inicial:
  "inicio \<in> nodos g \<Longrightarrow>
   bfs_inv g inicio final (\<lambda>w. 0)
     \<lparr>cola = [inicio], visitados = {inicio}, padre = [inicio \<mapsto> None],
      pasos_busqueda = [PasoBFS 0 (Inicializar inicio) [inicio] {inicio} (Some inicio)],
      paso = 1\<rparr>"
  by (simp add: bfs_inv_def bfs_inv_c_def)

lemma buscar_camino_bfs_correcto:
  assumes "grafo_ok g" "inicio \<in> nodos g" "final \<in> nodos g"
  shows "\<exists>r ps. buscar_camino_bfs g inicio final = Some (Inr (r, ps)) \<and> bfs_post g inicio final r"
  using bfs_loop_correcto [OF assms(1) bfs_inv_inicial [OF assms(2)], of final] assms(2,3)
  by (simp add: buscar_camino_bfs_def)

lemma es_camino_recorrido:
  "grafo_ok g \<Longrightarrow> es_camino g inicio final xs \<longleftrightarrow> recorrido g inicio xs \<and> last xs = final"
proof -
  assume ok: "grafo_ok g"
  have "sigue g = conecta g"
    by (intro ext) (simp add: sigue_def grafo_ok_vecinos [OF ok])
  then show ?thesis by (auto simp: es_camino_def recorrido_def)
qed

section \<open>Bulk load and export\<close>

lemma py_float_PInt:
  "\<bar>n\<bar> \<le> 1000000 \<Longrightarrow> py_float py (PInt n) = Inr (of_int n)"
  by (simp add: limite_float_def)



lemma agregar_arista_PFloat:
  "agregar_arista py origen destino (PFloat p) g = Inr (True, insertar_arista origen destino p g)"
  by (simp add: agregar_arista_def)

lemma construir_Nil: "construir g [] = g"
  by (simp add: construir_def)

lemma construir_Cons:
  "construir g ((origen, destino, p) # es) = construir (insertar_arista origen destino p g) es"
  by (simp add: construir_def)

lemma aristas_construir: "aristas (construir g es) = aristas g @ es"
proof (induction es arbitrary: g)
  case Nil
  then show ?case by (simp add: construir_Nil)
next
  case (Cons e es)
  obtain a b p where e: "e = (a, b, p)" by (cases e)
  show ?case by (simp add: e construir_Cons Cons.IH) (simp add: insertar_arista_def)
qed

lemma grafo_ok_construir: "grafo_ok g \<Longrightarrow> grafo_ok (construir g es)"
proof (induction es arbitrary: g)
  case Nil
  then show ?case by (simp add: construir_Nil)
next
  case (Cons e es)
  obtain a b p where e: "e = (a, b, p)" by (cases e)
  from Cons show ?case by (simp add: e construir_Cons grafo_ok_insertar)
qed

lemma grafo_ok_limpiar: "grafo_ok (limpiar g)" "grafo_ok (limpiar_hc h)"
  by (simp_all add: grafo_ok_def limpiar_def limpiar_hc_def)

lemma posiciones_construir: "posiciones_nodos (construir g es) = posiciones_nodos g"
proof (induction es arbitrary: g)
  case Nil
  then show ?case by (simp add: construir_Nil)
next
  case (Cons e es)
  obtain a b p where e: "e = (a, b, p)" by (cases e)
  show ?case by (simp add: e construir_Cons Cons.IH) (simp add: insertar_arista_def)
qed

lemma cargar_aristas_eq:
  "snd (cargar_aristas py i recs (g, n, errs)) =
     (construir g (aristas_leidas py (antes py recs)),
      n + length (aristas_leidas py (antes py recs)),
      errs @ errores_formato py (i + 1) (antes py recs))"
proof (induction recs arbitrary: i g n errs)
  case Nil
  then show ?case by (simp add: construir_Nil aristas_leidas_def errores_formato_def antes_def)
next
  case (Cons a recs)
  show ?case
  proof (cases "leer_arista py a")
    case (Inl e)
    then show ?thesis
      by (cases "capturada e")
         (simp_all add: fatal_def Cons.IH aristas_leidas_def errores_formato_def enumerate_simps
            antes_def construir_Nil)
  next
    case (Inr e)
    obtain u v p where e: "e = (u, v, p)" by (cases e)
    from Inr e show ?thesis
      by (simp add: fatal_def Cons.IH agregar_arista_PFloat aristas_leidas_def errores_formato_def
          antes_def construir_Cons)
  qed
qed

lemma cargar_aristas_fst:
  "fst (cargar_aristas py i recs (g, n, errs)) = None \<longleftrightarrow> \<not> list_ex (fatal py) recs"
proof (induction recs arbitrary: i g n errs)
  case Nil
  then show ?case by simp
next
  case (Cons a recs)
  show ?case
  proof (cases "leer_arista py a")
    case (Inl e)
    then show ?thesis by (cases "capturada e") (simp_all add: fatal_def Cons.IH)
  next
    case (Inr e)
    obtain u v p where e: "e = (u, v, p)" by (cases e)
    from Inr e show ?thesis by (simp add: fatal_def Cons.IH agregar_arista_PFloat)
  qed
qed

lemma antes_todos: "\<not> list_ex (fatal py) recs \<Longrightarrow> antes py recs = recs"
  by (simp add: antes_def list_ex_iff)


lemma cargar_aristas_ok:
  assumes "\<not> list_ex (fatal py) recs"
  shows "cargar_aristas py i recs (g, n, errs) =
     (None, construir g (aristas_leidas py recs), n + length (aristas_leidas py recs),
      errs @ errores_formato py (i + 1) recs)"
proof -
  from assms have "fst (cargar_aristas py i recs (g, n, errs)) = None"
    by (simp add: cargar_aristas_fst)
  moreover from assms have "snd (cargar_aristas py i recs (g, n, errs)) =
      (construir g (aristas_leidas py recs), n + length (aristas_leidas py recs),
       errs @ errores_formato py (i + 1) recs)"
    by (simp add: cargar_aristas_eq antes_todos)
  ultimately show ?thesis by (simp add: prod_eq_iff)
qed

lemma cargar_aristas_fatal:
  assumes "list_ex (fatal py) recs"
  shows "\<exists>e. cargar_aristas py i recs (g, n, errs) =
     (Some e, construir g (aristas_leidas py (antes py recs)),
      n + length (aristas_leidas py (antes py recs)),
      errs @ errores_formato py (i + 1) (antes py recs))"
proof -
  from assms have "fst (cargar_aristas py i recs (g, n, errs)) \<noteq> None"
    by (simp add: cargar_aristas_fst)
  then obtain e where "fst (cargar_aristas py i recs (g, n, errs)) = Some e" by blast
  moreover have "cargar_aristas py i recs (g, n, errs) =
      (fst (cargar_aristas py i recs (g, n, errs)), snd (cargar_aristas py i recs (g, n, errs)))"
    by simp
  ultimately show ?thesis by (simp only: cargar_aristas_eq) blast
qed

lemma cargar_desde_json_registros:
  assumes "map_of kv (lit ''aristas'') = Some v" and "py_iter v = Inr recs"
  shows "cargar_desde_json py (PDict kv) g =
     (if list_ex (fatal py) recs
      then (Inl ValueError, construir (limpiar g) (aristas_leidas py (antes py recs)))
      else (Inr (length (aristas_leidas py recs), errores_formato py 1 recs),
            construir (limpiar g) (aristas_leidas py recs)))"
proof (cases "list_ex (fatal py) recs")
  case True
  from cargar_aristas_fatal [OF True, of 0 "limpiar g" 0 "[]"] assms True show ?thesis
    by (auto simp: cargar_desde_json_def Let_def)
next
  case False
  from cargar_aristas_ok [OF False, of 0 "limpiar g" 0 "[]"] assms False show ?thesis
    by (simp add: cargar_desde_json_def Let_def)
qed









subsection \<open>The examples, evaluated\<close>

lemma con_ascii_simps:
  "str_strip (con_ascii py) = strip_ascii" "str_upper (con_ascii py) = upper_ascii"
  "float_str (con_ascii py) = float_str py" "str_val (con_ascii py) = str_val py"
  by (simp_all add: con_ascii_def)

lemma normalizar_ejemplos:
  "normalizar (con_ascii py) (lit ''a'') = lit ''A''"
  "normalizar (con_ascii py) (lit '' b '') = lit ''B''"
  "normalizar (con_ascii py) (lit ''b'') = lit ''B''"
  "normalizar (con_ascii py) (lit ''c'') = lit ''C''"
  "normalizar (con_ascii py) (lit ''A'') = lit ''A''"
  "normalizar (con_ascii py) (lit ''B'') = lit ''B''"
  "normalizar (con_ascii py) (lit ''C'') = lit ''C''"
  "normalizar (con_ascii py) (lit ''D'') = lit ''D''"
  by (simp_all add: normalizar_def con_ascii_simps strip_ascii_def upper_ascii_def
      es_espacio_ascii_def lit_def)



lemma peso_enorme_desborda: "limite_float \<le> \<bar>peso_enorme\<bar>"
  by (simp add: limite_float_def peso_enorme_def)








lemma aristas_grafo_minusculas:
  "aristas grafo_minusculas = [(lit ''a'', lit '' b '', 1)]"
  "nodos grafo_minusculas = {lit ''a'', lit '' b ''}"
  by (auto simp: grafo_minusculas_def insertar_arista_def grafo_vacio_def)

lemma agregar_arista_minusculas:
  "agregar_arista py (lit ''a'') (lit '' b '') (PInt 1) grafo_vacio = Inr (True, grafo_minusculas)"
  by (simp add: agregar_arista_def py_float_PInt grafo_minusculas_def del: py_float.simps)

lemma grafo_igual:
  fixes g h :: grafo
  assumes "grafo_ok g" "grafo_ok h" "aristas g = aristas h"
  shows "g = h"
proof (rule grafo.equality)
  show "adyacencias g = adyacencias h"
    using assms by (intro ext) (simp add: grafo_ok_def)
  show "aristas g = aristas h" by fact
  show "nodos g = nodos h" using assms by (simp add: grafo_ok_def)
  show "grafo.more g = grafo.more h" by simp
qed

lemma leer_arista_exportada:
  "leer_arista py (PDict [(lit ''origen'', PStr origen), (lit ''destino'', PStr destino),
                          (lit ''peso'', PFloat p)]) =
     Inr (normalizar py origen, normalizar py destino, p)"
  by (simp add: leer_arista_def)

lemma aristas_leidas_exportadas:
  "aristas_leidas py
     (map (\<lambda>(origen, destino, p).
             PDict [(lit ''origen'', PStr origen), (lit ''destino'', PStr destino),
                    (lit ''peso'', PFloat p)]) es) =
   map (\<lambda>(origen, destino, p). (normalizar py origen, normalizar py destino, p)) es"
  by (induction es) (auto simp: aristas_leidas_def leer_arista_exportada)

lemma errores_formato_exportadas:
  "errores_formato py n
     (map (\<lambda>(origen, destino, p).
             PDict [(lit ''origen'', PStr origen), (lit ''destino'', PStr destino),
                    (lit ''peso'', PFloat p)]) es) = []"
  by (induction es arbitrary: n) (auto simp: errores_formato_def leer_arista_exportada enumerate_simps)

lemma fatal_exportadas:
  "\<not> list_ex (fatal py)
     (map (\<lambda>(origen, destino, p).
             PDict [(lit ''origen'', PStr origen), (lit ''destino'', PStr destino),
                    (lit ''peso'', PFloat p)]) es)"
  by (induction es) (auto simp: fatal_def leer_arista_exportada)

lemma cargar_exportado:
  "cargar_desde_json py (exportar_a_json ns g) g0 =
     (Inr (length (aristas g), []),
      construir (limpiar g0)
        (map (\<lambda>(origen, destino, p). (normalizar py origen, normalizar py destino, p)) (aristas g)))"
proof -
  let ?recs = "map (\<lambda>(origen, destino, p).
             PDict [(lit ''origen'', PStr origen), (lit ''destino'', PStr destino),
                    (lit ''peso'', PFloat p)])
           (aristas g)"
  have e: "exportar_a_json ns g =
      PDict [(lit ''nodos'', PList (map PStr ns)), (lit ''aristas'', PList ?recs)]"
    by (simp add: exportar_a_json_def)
  have m: "map_of [(lit ''nodos'', PList (map PStr ns)), (lit ''aristas'', PList ?recs)] (lit ''aristas'')
      = Some (PList ?recs)" by simp
  show ?thesis
    by (simp only: e cargar_desde_json_registros [OF m py_iter.simps(1)] fatal_exportadas
        aristas_leidas_exportadas errores_formato_exportadas length_map if_False)
qed

lemma map_fijo: "map f xs = xs \<longleftrightarrow> (\<forall>x \<in> set xs. f x = x)"
  by (induction xs) auto

lemma normalizado_map:
  "normalizado py g \<longleftrightarrow>
     map (\<lambda>(origen, destino, p). (normalizar py origen, normalizar py destino, p)) (aristas g) =
       aristas g"
  by (auto simp: normalizado_def map_fijo)

lemma grafo_escenario_a_ok: "grafo_ok grafo_escenario_a"
  by (simp add: grafo_escenario_a_def grafo_ok_insertar grafo_ok_vacio)

lemma aristas_grafo_escenario_a:
  "aristas grafo_escenario_a =
     [(lit ''A'', lit ''B'', 1), (lit ''B'', lit ''C'', 1), (lit ''A'', lit ''C'', 5)]"
  by (simp add: grafo_escenario_a_def insertar_arista_def grafo_vacio_def)


section \<open>The scenario graph, evaluated\<close>

lemma nodos_grafo_escenario: "nodos grafo_escenario = {lit ''A'', lit ''B'', lit ''C''}"
  by (auto simp: grafo_escenario_def insertar_arista_def grafo_hc_vacio_def)

lemma adyacencias_grafo_escenario:
  "adyacencias grafo_escenario (lit ''A'') = [(lit ''B'', 1), (lit ''C'', 5)]"
  "adyacencias grafo_escenario (lit ''B'') = [(lit ''C'', 1)]"
  by (simp_all add: grafo_escenario_def insertar_arista_def grafo_hc_vacio_def)

lemma heuristica_lineal_escenario:
  "calcular_heuristica_distancia_lineal (lit ''B'') (lit ''C'') = 1 / 100"
  "calcular_heuristica_distancia_lineal (lit ''C'') (lit ''C'') = 0"
  by (simp_all add: calcular_heuristica_distancia_lineal_def lit_def)

lemma hc_escenario_traza:
  "buscar_camino_hc grafo_escenario [] (lit ''A'') (lit ''C'') =
   (Some [lit ''A'', lit ''B'', lit ''C''],
    [PasoHC 0 (IniciarHC (lit ''A'')) (Some (lit ''A'')) [lit ''A''] 0 {lit ''A''},
     PasoHC 1 (EvaluarVecinos (lit ''A'') [(lit ''B'', 1, 1 / 100, 101 / 100), (lit ''C'', 5, 0, 5)])
       (Some (lit ''A'')) [lit ''A''] 0 {lit ''A''},
     PasoHC 2 (Moverse (lit ''B'') (101 / 100) None) (Some (lit ''B'')) [lit ''A'', lit ''B''] 1 {lit ''A'', lit ''B''},
     PasoHC 3 (EvaluarVecinos (lit ''B'') [(lit ''C'', 1, 0, 2)]) (Some (lit ''B'')) [lit ''A'', lit ''B''] 1 {lit ''A'', lit ''B''},
     PasoHC 4 (Moverse (lit ''C'') 2 (Some [lit ''A'', lit ''B'', lit ''C''])) (Some (lit ''C'')) [lit ''A'', lit ''B'', lit ''C''] 2
       {lit ''A'', lit ''B'', lit ''C''}])"
  by (simp add: buscar_camino_hc_def nodos_grafo_escenario adyacencias_grafo_escenario
      heuristica_lineal_escenario hc_loop.simps hc_iteracion_def obtener_vecinos_con_peso_def
      registro_hc_def estado_inicial_hc_def Let_def insert_commute)

lemma grafo_escenario_ok: "grafo_ok grafo_escenario"
  by (simp add: grafo_escenario_def grafo_ok_insertar grafo_ok_vacio)

lemma aristas_grafo_escenario:
  "aristas grafo_escenario = [(lit ''A'', lit ''B'', 1), (lit ''B'', lit ''C'', 1), (lit ''A'', lit ''C'', 5)]"
  by (simp add: grafo_escenario_def insertar_arista_def grafo_hc_vacio_def)

lemma adyacencias_grafo_escenario_C: "adyacencias grafo_escenario (lit ''C'') = []"
  by (simp add: grafo_escenario_def insertar_arista_def grafo_hc_vacio_def)

lemma bfs_escenario_traza:
  "buscar_camino_bfs grafo_escenario (lit ''A'') (lit ''C'') =
     Some (Inr (Some [lit ''A'', lit ''C''],
       [PasoBFS 0 (Inicializar (lit ''A'')) [lit ''A''] {lit ''A''} (Some (lit ''A'')),
        PasoBFS 1 (ProcesarNodo (lit ''A'')) [] {lit ''A''} (Some (lit ''A'')),
        PasoBFS 2 (AgregarVecinos (lit ''A'') [lit ''B'', lit ''C'']) [lit ''B'', lit ''C''] {lit ''A'', lit ''B'', lit ''C''} (Some (lit ''A'')),
        PasoBFS 3 (ProcesarNodo (lit ''B'')) [lit ''C''] {lit ''A'', lit ''B'', lit ''C''} (Some (lit ''B'')),
        PasoBFS 4 (ProcesarNodo (lit ''C'')) [] {lit ''A'', lit ''B'', lit ''C''} (Some (lit ''C'')),
        PasoBFS 5 (MetaEncontrada [lit ''A'', lit ''C'']) [] {lit ''A'', lit ''B'', lit ''C''} (Some (lit ''C''))]))"
  by (simp add: buscar_camino_bfs_def nodos_grafo_escenario adyacencias_grafo_escenario
      bfs_loop.simps reconstruir_camino_def reconstruir_loop.simps desencolar_def expandir_def
      obtener_vecinos_def insert_commute)

lemma es_camino_escenario:
  "es_camino grafo_escenario (lit ''A'') (lit ''C'') [lit ''A'', lit ''B'', lit ''C'']"
  "es_camino grafo_escenario (lit ''A'') (lit ''C'') [lit ''A'', lit ''C'']"
  by (simp_all add: es_camino_def conecta_def aristas_grafo_escenario)

section \<open>The inconsistent graph, evaluated\<close>





section \<open>Unknown nodes\<close>

text \<open>
  Claim C4. When the start or the goal is not in the node set of the graph, both
  searches return (they do not raise and they do not run forever) an absent path and a
  trace of exactly one entry, the error entry.
\<close>

theorem nodo_desconocido_sin_camino:
  "inicio \<notin> nodos g \<or> final \<notin> nodos g \<Longrightarrow>
     buscar_camino_bfs g inicio final = Some (Inr (None, [ErrorNodosBFS])) \<and>
     buscar_camino_hc g pos inicio final = (None, [PasoHC 0 ErrorNodosHC None [] 0 {}])"
  by (auto simp: buscar_camino_bfs_def buscar_camino_hc_def)

theorem nodo_desconocido_sin_camino_witness:
  "(lit ''D'') \<notin> nodos grafo_escenario \<and>
   buscar_camino_bfs grafo_escenario (lit ''A'') (lit ''D'') = Some (Inr (None, [ErrorNodosBFS])) \<and>
   buscar_camino_hc grafo_escenario [] (lit ''A'') (lit ''D'') = (None, [PasoHC 0 ErrorNodosHC None [] 0 {}])"
proof -
  have h: "(lit ''D'') \<notin> nodos grafo_escenario"
    by (simp add: nodos_grafo_escenario)
  then have "(lit ''A'') \<notin> nodos grafo_escenario \<or> (lit ''D'') \<notin> nodos grafo_escenario"
    by simp
  from nodo_desconocido_sin_camino [OF this, of "[]"] h show ?thesis
    by simp
qed

section \<open>Start equal to goal\<close>

text \<open>
  Claim C9. For a known node \<open>s\<close>, both searches called with start = goal = \<open>s\<close> return
  the path \<open>[s]\<close>; the informed search returns it with the one trace entry of the
  initial state, whose accumulated cost is 0.
\<close>

theorem inicio_igual_objetivo:
  "s \<in> nodos g \<Longrightarrow>
   buscar_camino_bfs g s s =
     Some (Inr (Some [s],
       [PasoBFS 0 (Inicializar s) [s] {s} (Some s),
        PasoBFS 1 (ProcesarNodo s) [] {s} (Some s),
        PasoBFS 2 (MetaEncontrada [s]) [] {s} (Some s)])) \<and>
   buscar_camino_hc g pos s s = (Some [s], [PasoHC 0 (IniciarHC s) (Some s) [s] 0 {s}])"
  by (simp add: buscar_camino_bfs_def buscar_camino_hc_def bfs_loop.simps reconstruir_camino_def
       reconstruir_loop.simps desencolar_def hc_loop.simps registro_hc_def estado_inicial_hc_def
       Let_def)

theorem inicio_igual_objetivo_witness:
  "(lit ''B'') \<in> nodos grafo_escenario \<and>
   buscar_camino_bfs grafo_escenario (lit ''B'') (lit ''B'') =
     Some (Inr (Some [lit ''B''],
       [PasoBFS 0 (Inicializar (lit ''B'')) [lit ''B''] {lit ''B''} (Some (lit ''B'')),
        PasoBFS 1 (ProcesarNodo (lit ''B'')) [] {lit ''B''} (Some (lit ''B'')),
        PasoBFS 2 (MetaEncontrada [lit ''B'']) [] {lit ''B''} (Some (lit ''B''))])) \<and>
   buscar_camino_hc grafo_escenario [] (lit ''B'') (lit ''B'') =
     (Some [lit ''B''], [PasoHC 0 (IniciarHC (lit ''B'')) (Some (lit ''B'')) [lit ''B''] 0 {lit ''B''}])"
proof -
  have h: "(lit ''B'') \<in> nodos grafo_escenario"
    by (simp add: nodos_grafo_escenario)
  from inicio_igual_objetivo [OF h, of "[]"] h show ?thesis
    by simp
qed

section \<open>Scenario B\<close>

text \<open>
  Claim C2, as stated, fails: on the scenario graph with no positions the informed search
  from A to C does not return the path \<open>[A, C]\<close>.
\<close>

theorem escenario_b_no_directo:
  "fst (buscar_camino_hc grafo_escenario [] (lit ''A'') (lit ''C'')) \<noteq> Some [lit ''A'', lit ''C'']"
  by (simp add: hc_escenario_traza)

text \<open>
  Claim C2, amended. On the scenario graph with no positions the informed search from A
  to C evaluates both neighbours of A, B with 0 + 1 + 0.01 = 1.01 and C with 0 + 5 + 0 = 5,
  moves to B, whose evaluation is the smaller one, evaluates C from B and moves to C; it
  returns the path \<open>[A, B, C]\<close>, with accumulated cost 2 in its last trace entry.
\<close>

theorem escenario_b_resultado:
  "buscar_camino_hc grafo_escenario [] (lit ''A'') (lit ''C'') =
   (Some [lit ''A'', lit ''B'', lit ''C''],
    [PasoHC 0 (IniciarHC (lit ''A'')) (Some (lit ''A'')) [lit ''A''] 0 {lit ''A''},
     PasoHC 1 (EvaluarVecinos (lit ''A'') [(lit ''B'', 1, 1 / 100, 101 / 100), (lit ''C'', 5, 0, 5)])
       (Some (lit ''A'')) [lit ''A''] 0 {lit ''A''},
     PasoHC 2 (Moverse (lit ''B'') (101 / 100) None) (Some (lit ''B'')) [lit ''A'', lit ''B''] 1 {lit ''A'', lit ''B''},
     PasoHC 3 (EvaluarVecinos (lit ''B'') [(lit ''C'', 1, 0, 2)]) (Some (lit ''B'')) [lit ''A'', lit ''B''] 1 {lit ''A'', lit ''B''},
     PasoHC 4 (Moverse (lit ''C'') 2 (Some [lit ''A'', lit ''B'', lit ''C''])) (Some (lit ''C'')) [lit ''A'', lit ''B'', lit ''C''] 2
       {lit ''A'', lit ''B'', lit ''C''}])"
  by (rule hc_escenario_traza)

theorem escenario_b_resultado_witness:
  "fst (buscar_camino_hc grafo_escenario [] (lit ''A'') (lit ''C'')) = Some [lit ''A'', lit ''B'', lit ''C''] \<and>
   length (snd (buscar_camino_hc grafo_escenario [] (lit ''A'') (lit ''C''))) = 5"
  using escenario_b_resultado by simp

section \<open>The informed search never revisits a node\<close>

text \<open>
  Claim C8. Whenever the informed search returns a path, for any graph, any start and
  goal and any position map, no node occurs twice in that path.
\<close>

theorem camino_hc_sin_repetidos:
  "buscar_camino_hc g pos inicio objetivo = (Some cam, ps) \<Longrightarrow> distinct cam"
  using buscar_camino_hc_Some [of g pos inicio objetivo cam ps]
  by (auto simp: hc_inv_def)

theorem camino_hc_sin_repetidos_witness:
  "buscar_camino_hc grafo_escenario [] (lit ''A'') (lit ''C'') =
     (Some [lit ''A'', lit ''B'', lit ''C''], snd (buscar_camino_hc grafo_escenario [] (lit ''A'') (lit ''C''))) \<and>
   distinct [lit ''A'', lit ''B'', lit ''C'']"
proof -
  have h: "buscar_camino_hc grafo_escenario [] (lit ''A'') (lit ''C'') =
     (Some [lit ''A'', lit ''B'', lit ''C''], snd (buscar_camino_hc grafo_escenario [] (lit ''A'') (lit ''C'')))"
    by (simp add: hc_escenario_traza)
  from camino_hc_sin_repetidos [OF h] h show ?thesis by simp
qed

section \<open>Termination and the iteration cap of the informed search\<close>




section \<open>Bulk load: hard and per-record failures\<close>




section \<open>Where the endpoints are normalized\<close>

text \<open>
  Claim C6, as stated, fails: \<open>agregar_arista\<close> called with the endpoints \<open>a\<close> and
  \<open> b \<close> records the edge and the nodes with these very labels, not with \<open>A\<close> and \<open>B\<close>,
  their trimmed and upper-cased forms.
\<close>

theorem agregar_arista_no_normaliza:
  "\<forall>py. agregar_arista py (lit ''a'') (lit '' b '') (PInt 1) grafo_vacio =
          Inr (True, grafo_minusculas) \<and>
        aristas grafo_minusculas = [(lit ''a'', lit '' b '', 1)] \<and>
        nodos grafo_minusculas = {lit ''a'', lit '' b ''} \<and>
        normalizar (con_ascii py) (lit ''a'') = lit ''A'' \<and>
        normalizar (con_ascii py) (lit '' b '') = lit ''B'' \<and>
        aristas grafo_minusculas \<noteq> [(lit ''A'', lit ''B'', 1)] \<and>
        lit ''A'' \<notin> nodos grafo_minusculas \<and> lit ''B'' \<notin> nodos grafo_minusculas"
  by (simp add: agregar_arista_minusculas aristas_grafo_minusculas normalizar_ejemplos)

text \<open>
  Claim C6, amended. \<open>agregar_arista\<close> stores both endpoints exactly as it receives them:
  when the weight converts to \<open>p\<close>, it appends the edge (origen, destino, p) to the edge
  list and to the adjacency list of \<open>origen\<close>, adds \<open>origen\<close> and \<open>destino\<close> to the node
  set and returns success; when \<open>float\<close> raises ValueError it returns failure and leaves
  the graph as it was, and any other exception of \<open>float\<close> leaves the call. Trimming and
  upper-casing are done by the bulk loader before the call: it inserts the edge of a
  well-formed record with both endpoints normalized.
\<close>

theorem agregar_arista_guarda_extremos:
  "(py_float py peso = Inr p \<longrightarrow>
      agregar_arista py origen destino peso g = Inr (True, insertar_arista origen destino p g) \<and>
      aristas (insertar_arista origen destino p g) = aristas g @ [(origen, destino, p)] \<and>
      nodos (insertar_arista origen destino p g) = nodos g \<union> {origen, destino} \<and>
      adyacencias (insertar_arista origen destino p g) origen =
        adyacencias g origen @ [(destino, p)]) \<and>
   (py_float py peso = Inl ValueError \<longrightarrow>
      agregar_arista py origen destino peso g = Inr (False, g)) \<and>
   (py_float py peso = Inl e \<and> e \<noteq> ValueError \<longrightarrow>
      agregar_arista py origen destino peso g = Inl e) \<and>
   (py_float py w = Inr q \<longrightarrow>
      cargar_aristas py i
          [PDict [(lit ''origen'', PStr a), (lit ''destino'', PStr b), (lit ''peso'', w)]]
          (h, n, errs) =
        (None, insertar_arista (normalizar py a) (normalizar py b) q h, n + 1, errs))"
  by (cases e) (auto simp: agregar_arista_def insertar_arista_def leer_arista_def)

theorem agregar_arista_guarda_extremos_witness:
  "\<forall>py. py_float py (PInt 1) = Inr 1 \<and>
     agregar_arista py (lit ''a'') (lit '' b '') (PInt 1) grafo_vacio =
       Inr (True, insertar_arista (lit ''a'') (lit '' b '') 1 grafo_vacio) \<and>
     aristas (insertar_arista (lit ''a'') (lit '' b '') 1 grafo_vacio) = [(lit ''a'', lit '' b '', 1)] \<and>
     py_float (sin_float py (lit ''x'')) (PStr (lit ''x'')) = Inl ValueError \<and>
     agregar_arista (sin_float py (lit ''x'')) (lit ''a'') (lit '' b '') (PStr (lit ''x'')) grafo_vacio =
       Inr (False, grafo_vacio) \<and>
     py_float py PNone = Inl TypeError \<and>
     agregar_arista py (lit ''a'') (lit '' b '') PNone grafo_vacio = Inl TypeError \<and>
     py_float py (PInt peso_enorme) = Inl OverflowError \<and>
     agregar_arista py (lit ''a'') (lit '' b '') (PInt peso_enorme) grafo_vacio = Inl OverflowError \<and>
     cargar_aristas (con_ascii py) 0
       [PDict [(lit ''origen'', PStr (lit ''a'')), (lit ''destino'', PStr (lit '' b '')),
               (lit ''peso'', PInt 1)]]
       (grafo_vacio, 0, []) =
     (None, insertar_arista (lit ''A'') (lit ''B'') 1 grafo_vacio, 1, [])"
proof
  fix py
  have h: "py_float py (PInt 1) = Inr 1" "py_float (con_ascii py) (PInt 1) = Inr 1"
    by (simp_all add: py_float_PInt del: py_float.simps)
  have t: "py_float py PNone = Inl TypeError" by simp
  have o: "py_float py (PInt peso_enorme) = Inl OverflowError"
    using peso_enorme_desborda by simp
  have v: "py_float (sin_float py (lit ''x'')) (PStr (lit ''x'')) = Inl ValueError"
    by (simp add: sin_float_def)
  note b2 = agregar_arista_guarda_extremos [where py = py and peso = "PInt peso_enorme"
      and e = OverflowError and origen = "lit ''a''" and destino = "lit '' b ''" and g = grafo_vacio]
  note b3 = agregar_arista_guarda_extremos [where py = "sin_float py (lit ''x'')"
      and peso = "PStr (lit ''x'')" and origen = "lit ''a''" and destino = "lit '' b ''"
      and g = grafo_vacio]
  note a = agregar_arista_guarda_extremos [where py = py and peso = "PInt 1" and p = 1
      and origen = "lit ''a''" and destino = "lit '' b ''" and g = grafo_vacio]
  note b = agregar_arista_guarda_extremos [where py = py and peso = PNone and e = TypeError
      and origen = "lit ''a''" and destino = "lit '' b ''" and g = grafo_vacio]
  note c = agregar_arista_guarda_extremos [where py = "con_ascii py" and w = "PInt 1" and q = 1
      and i = 0 and a = "lit ''a''" and b = "lit '' b ''" and h = grafo_vacio and n = 0
      and errs = "[]"]
  from a h(1) have a': "agregar_arista py (lit ''a'') (lit '' b '') (PInt 1) grafo_vacio =
       Inr (True, insertar_arista (lit ''a'') (lit '' b '') 1 grafo_vacio)"
    "aristas (insertar_arista (lit ''a'') (lit '' b '') 1 grafo_vacio) =
       aristas grafo_vacio @ [(lit ''a'', lit '' b '', 1)]"
    by blast+
  from b t have b': "agregar_arista py (lit ''a'') (lit '' b '') PNone grafo_vacio = Inl TypeError"
    by blast
  from b2 o have b2': "agregar_arista py (lit ''a'') (lit '' b '') (PInt peso_enorme) grafo_vacio =
      Inl OverflowError"
    by blast
  from b3 v have b3': "agregar_arista (sin_float py (lit ''x'')) (lit ''a'') (lit '' b '')
      (PStr (lit ''x'')) grafo_vacio = Inr (False, grafo_vacio)"
    by blast
  from c h(2) have c': "cargar_aristas (con_ascii py) 0
       [PDict [(lit ''origen'', PStr (lit ''a'')), (lit ''destino'', PStr (lit '' b '')),
               (lit ''peso'', PInt 1)]]
       (grafo_vacio, 0, []) =
     (None, insertar_arista (normalizar (con_ascii py) (lit ''a''))
              (normalizar (con_ascii py) (lit '' b '')) 1 grafo_vacio, 0 + 1, [])"
    by blast
  from a' b' b2' b3' c' h(1) t o v
  show "py_float py (PInt 1) = Inr 1 \<and>
     agregar_arista py (lit ''a'') (lit '' b '') (PInt 1) grafo_vacio =
       Inr (True, insertar_arista (lit ''a'') (lit '' b '') 1 grafo_vacio) \<and>
     aristas (insertar_arista (lit ''a'') (lit '' b '') 1 grafo_vacio) = [(lit ''a'', lit '' b '', 1)] \<and>
     py_float (sin_float py (lit ''x'')) (PStr (lit ''x'')) = Inl ValueError \<and>
     agregar_arista (sin_float py (lit ''x'')) (lit ''a'') (lit '' b '') (PStr (lit ''x'')) grafo_vacio =
       Inr (False, grafo_vacio) \<and>
     py_float py PNone = Inl TypeError \<and>
     agregar_arista py (lit ''a'') (lit '' b '') PNone grafo_vacio = Inl TypeError \<and>
     py_float py (PInt peso_enorme) = Inl OverflowError \<and>
     agregar_arista py (lit ''a'') (lit '' b '') (PInt peso_enorme) grafo_vacio = Inl OverflowError \<and>
     cargar_aristas (con_ascii py) 0
       [PDict [(lit ''origen'', PStr (lit ''a'')), (lit ''destino'', PStr (lit '' b '')),
               (lit ''peso'', PInt 1)]]
       (grafo_vacio, 0, []) =
     (None, insertar_arista (lit ''A'') (lit ''B'') 1 grafo_vacio, 1, [])"
    by (simp add: normalizar_ejemplos grafo_vacio_def)
qed

section \<open>Export followed by bulk load\<close>

text \<open>
  Claim C7, as stated, fails: the graph built by \<open>agregar_arista\<close> with the endpoints
  \<open>a\<close> and \<open> b \<close> comes back from export and bulk load with the edge A\<rightarrow>B, which is not
  its edge.
\<close>

theorem ida_y_vuelta_minusculas:
  "\<forall>py ns.
     aristas (snd (cargar_desde_json (con_ascii py) (exportar_a_json ns grafo_minusculas)
                     grafo_vacio)) = [(lit ''A'', lit ''B'', 1)] \<and>
     aristas (snd (cargar_desde_json (con_ascii py) (exportar_a_json ns grafo_minusculas)
                     grafo_vacio)) \<noteq> aristas grafo_minusculas"
  by (simp add: cargar_exportado aristas_construir aristas_grafo_minusculas normalizar_ejemplos
      limpiar_def grafo_vacio_def)

text \<open>
  Claim C7, amended. Exporting a graph and bulk-loading the export into any graph
  returns without error entries, with as many loaded edges as the graph has, and leaves
  the edges of the original in the same order with both endpoints of every edge trimmed
  and upper-cased. For a graph built by the program, the loaded graph is the original
  (the same edges in the same order, the same adjacency lists and the same node set)
  exactly when trimming and upper-casing leaves every label of the original unchanged.
\<close>

theorem ida_y_vuelta:
  fixes g g0 :: grafo
  shows "fst (cargar_desde_json py (exportar_a_json ns g) g0) = Inr (length (aristas g), []) \<and>
    aristas (snd (cargar_desde_json py (exportar_a_json ns g) g0)) =
      map (\<lambda>(origen, destino, p). (normalizar py origen, normalizar py destino, p)) (aristas g) \<and>
    (grafo_ok g \<longrightarrow>
       (cargar_desde_json py (exportar_a_json ns g) g0 = (Inr (length (aristas g), []), g)
          \<longleftrightarrow> normalizado py g))"
proof -
  let ?es = "map (\<lambda>(origen, destino, p). (normalizar py origen, normalizar py destino, p)) (aristas g)"
  have eq: "cargar_desde_json py (exportar_a_json ns g) g0 =
      (Inr (length (aristas g), []), construir (limpiar g0) ?es)"
    by (rule cargar_exportado)
  have ar: "aristas (construir (limpiar g0) ?es) = ?es"
    by (simp add: aristas_construir limpiar_def)
  have "construir (limpiar g0) ?es = g \<longleftrightarrow> normalizado py g" if ok: "grafo_ok g"
  proof
    assume "construir (limpiar g0) ?es = g"
    with ar have "?es = aristas g" by simp
    then show "normalizado py g" by (simp add: normalizado_map)
  next
    assume "normalizado py g"
    then have e: "?es = aristas g" by (simp add: normalizado_map)
    show "construir (limpiar g0) ?es = g"
    proof (rule grafo_igual)
      show "grafo_ok (construir (limpiar g0) ?es)"
        by (rule grafo_ok_construir) (rule grafo_ok_limpiar)
      show "grafo_ok g" by fact
      show "aristas (construir (limpiar g0) ?es) = aristas g"
        using ar e by simp
    qed
  qed
  with eq ar show ?thesis by simp
qed

theorem ida_y_vuelta_witness:
  "\<forall>py ns. grafo_ok grafo_escenario_a \<and> normalizado (con_ascii py) grafo_escenario_a \<and>
     cargar_desde_json (con_ascii py) (exportar_a_json ns grafo_escenario_a) grafo_vacio =
       (Inr (3, []), grafo_escenario_a)"
proof (intro allI)
  fix py ns
  have n: "normalizado (con_ascii py) grafo_escenario_a"
    by (simp add: normalizado_def aristas_grafo_escenario_a normalizar_ejemplos)
  from ida_y_vuelta [of "con_ascii py" ns grafo_escenario_a grafo_vacio] grafo_escenario_a_ok n
  have "cargar_desde_json (con_ascii py) (exportar_a_json ns grafo_escenario_a) grafo_vacio =
       (Inr (length (aristas grafo_escenario_a), []), grafo_escenario_a)"
    by blast
  with grafo_escenario_a_ok n
  show "grafo_ok grafo_escenario_a \<and> normalizado (con_ascii py) grafo_escenario_a \<and>
     cargar_desde_json (con_ascii py) (exportar_a_json ns grafo_escenario_a) grafo_vacio =
       (Inr (3, []), grafo_escenario_a)"
    by (simp add: aristas_grafo_escenario_a)
qed

section \<open>The uninformed search returns a path with the fewest edges\<close>

text \<open>
  Claim C1. On every graph built by the program, for known nodes \<open>inicio\<close> and \<open>final\<close>
  such that some directed path leads from \<open>inicio\<close> to \<open>final\<close>, the breadth-first search
  returns (it terminates and does not raise) a directed path from \<open>inicio\<close> to \<open>final\<close>,
  and no directed path from \<open>inicio\<close> to \<open>final\<close> has fewer edges; the weights play no
  part. The witness is scenario A: on the scenario graph the search from A to C returns
  \<open>[A, C]\<close>.
\<close>

theorem bfs_camino_minimo:
  assumes ok: "grafo_ok g" and i: "inicio \<in> nodos g" and f: "final \<in> nodos g"
    and p: "es_camino g inicio final p"
  shows "\<exists>cam ps. buscar_camino_bfs g inicio final = Some (Inr (Some cam, ps)) \<and>
           es_camino g inicio final cam \<and>
           (\<forall>q. es_camino g inicio final q \<longrightarrow> length cam - 1 \<le> length q - 1)"
proof -
  note eq = es_camino_recorrido [OF ok]
  from buscar_camino_bfs_correcto [OF ok i f] obtain r ps where
    r: "buscar_camino_bfs g inicio final = Some (Inr (r, ps))" and post: "bfs_post g inicio final r"
    by blast
  from p have rp: "recorrido g inicio p" "last p = final" by (simp_all add: eq)
  show ?thesis
  proof (cases r)
    case None
    with post rp show ?thesis by (auto simp: bfs_post_def)
  next
    case (Some cam)
    with post have c: "recorrido g inicio cam" "last cam = final"
      and m: "\<forall>ch. recorrido g inicio ch \<and> last ch = final \<longrightarrow> length cam \<le> length ch"
      by (simp_all add: bfs_post_def)
    from c have "es_camino g inicio final cam" by (simp add: eq)
    moreover have "\<forall>q. es_camino g inicio final q \<longrightarrow> length cam - 1 \<le> length q - 1"
    proof (intro allI impI)
      fix q assume "es_camino g inicio final q"
      then have "recorrido g inicio q \<and> last q = final" by (simp add: eq)
      with m have "length cam \<le> length q" by blast
      then show "length cam - 1 \<le> length q - 1" by simp
    qed
    ultimately show ?thesis using r Some by blast
  qed
qed

theorem bfs_camino_minimo_witness:
  "grafo_ok grafo_escenario \<and> (lit ''A'') \<in> nodos grafo_escenario \<and> (lit ''C'') \<in> nodos grafo_escenario \<and>
   es_camino grafo_escenario (lit ''A'') (lit ''C'') [lit ''A'', lit ''B'', lit ''C''] \<and>
   fst (projr (the (buscar_camino_bfs grafo_escenario (lit ''A'') (lit ''C'')))) = Some [lit ''A'', lit ''C''] \<and>
   (\<exists>cam ps. buscar_camino_bfs grafo_escenario (lit ''A'') (lit ''C'') = Some (Inr (Some cam, ps)) \<and>
      es_camino grafo_escenario (lit ''A'') (lit ''C'') cam \<and>
      length cam - 1 \<le> length [lit ''A'', lit ''B'', lit ''C''] - 1)"
proof -
  have a: "(lit ''A'') \<in> nodos grafo_escenario" and c: "(lit ''C'') \<in> nodos grafo_escenario"
    by (simp_all add: nodos_grafo_escenario)
  from bfs_camino_minimo [OF grafo_escenario_ok a c es_camino_escenario(1)] obtain cam ps where
    r: "buscar_camino_bfs grafo_escenario (lit ''A'') (lit ''C'') = Some (Inr (Some cam, ps))"
    "es_camino grafo_escenario (lit ''A'') (lit ''C'') cam"
    "\<forall>q. es_camino grafo_escenario (lit ''A'') (lit ''C'') q \<longrightarrow> length cam - 1 \<le> length q - 1"
    by blast
  from r(3) es_camino_escenario(1) have "length cam - 1 \<le> length [lit ''A'', lit ''B'', lit ''C''] - 1"
    by blast
  with r(1,2) have "\<exists>cam ps. buscar_camino_bfs grafo_escenario (lit ''A'') (lit ''C'') = Some (Inr (Some cam, ps)) \<and>
      es_camino grafo_escenario (lit ''A'') (lit ''C'') cam \<and>
      length cam - 1 \<le> length [lit ''A'', lit ''B'', lit ''C''] - 1"
    by blast
  moreover have "fst (projr (the (buscar_camino_bfs grafo_escenario (lit ''A'') (lit ''C'')))) = Some [lit ''A'', lit ''C'']"
    by (simp add: bfs_escenario_traza)
  ultimately show ?thesis using grafo_escenario_ok a c es_camino_escenario(1) by blast
qed

section \<open>A returned path is a path of the graph\<close>

text \<open>
  Claim C10. On every graph built by the program, a path returned by either search
  begins with the start node, ends with the goal node, and every two consecutive nodes
  of it are joined by a directed edge of the graph.
\<close>

theorem camino_devuelto_es_camino:
  assumes ok: "grafo_ok g"
  shows "(buscar_camino_bfs g inicio final = Some (Inr (Some cam, ps)) \<longrightarrow>
            es_camino g inicio final cam) \<and>
         (buscar_camino_hc g pos inicio final = (Some cam', ps') \<longrightarrow>
            es_camino g inicio final cam')"
proof (intro conjI impI)
  note eq = es_camino_recorrido [OF ok]
  assume b: "buscar_camino_bfs g inicio final = Some (Inr (Some cam, ps))"
  then have known: "inicio \<in> nodos g" "final \<in> nodos g"
    by (simp_all add: buscar_camino_bfs_def split: if_splits)
  from buscar_camino_bfs_correcto [OF ok known] b have "bfs_post g inicio final (Some cam)"
    by auto
  then show "es_camino g inicio final cam"
    by (simp add: bfs_post_def eq)
next
  note eq = es_camino_recorrido [OF ok]
  assume h: "buscar_camino_hc g pos inicio final = (Some cam', ps')"
  from buscar_camino_hc_Some [OF h] obtain st where
    st: "nodo_actual st = final" "cam' = camino st" "hc_inv g inicio st"
    by blast
  have "sigue g = (\<lambda>u v. v \<in> set (obtener_vecinos g u))"
    by (intro ext) (simp add: sigue_def)
  with st show "es_camino g inicio final cam'"
    by (simp add: eq recorrido_def hc_inv_def)
qed

theorem camino_devuelto_es_camino_witness:
  "grafo_ok grafo_escenario \<and>
   buscar_camino_bfs grafo_escenario (lit ''A'') (lit ''C'') =
     Some (Inr (Some [lit ''A'', lit ''C''],
                snd (projr (the (buscar_camino_bfs grafo_escenario (lit ''A'') (lit ''C'')))))) \<and>
   es_camino grafo_escenario (lit ''A'') (lit ''C'') [lit ''A'', lit ''C''] \<and>
   buscar_camino_hc grafo_escenario [] (lit ''A'') (lit ''C'') =
     (Some [lit ''A'', lit ''B'', lit ''C''], snd (buscar_camino_hc grafo_escenario [] (lit ''A'') (lit ''C''))) \<and>
   es_camino grafo_escenario (lit ''A'') (lit ''C'') [lit ''A'', lit ''B'', lit ''C'']"
proof -
  have b: "buscar_camino_bfs grafo_escenario (lit ''A'') (lit ''C'') =
     Some (Inr (Some [lit ''A'', lit ''C''],
                snd (projr (the (buscar_camino_bfs grafo_escenario (lit ''A'') (lit ''C''))))))"
    by (simp add: bfs_escenario_traza)
  have h: "buscar_camino_hc grafo_escenario [] (lit ''A'') (lit ''C'') =
     (Some [lit ''A'', lit ''B'', lit ''C''], snd (buscar_camino_hc grafo_escenario [] (lit ''A'') (lit ''C'')))"
    by (simp add: hc_escenario_traza)
  note t = camino_devuelto_es_camino [OF grafo_escenario_ok]
  from t b have "es_camino grafo_escenario (lit ''A'') (lit ''C'') [lit ''A'', lit ''C'']" by blast
  moreover from t h have "es_camino grafo_escenario (lit ''A'') (lit ''C'') [lit ''A'', lit ''B'', lit ''C'']" by blast
  ultimately show ?thesis using grafo_escenario_ok b h by blast
qed

end
